theory Spec2Isabelle
  imports Main "HOL-Library.Word"
begin

unbundle bit_operations_syntax

section \<open>Machine types\<close>

type_synonym byte = "8 word"
type_synonym address = "160 word"
type_synonym uint256 = "256 word"
type_synonym bytes32 = "byte list"

section \<open>Client library (batch-contract.ts)\<close>

subsection \<open>estimateBatchGas\<close>

text \<open>
  \<^verbatim>\<open>return 50000 + recipientCount * 35000\<close> on a JavaScript number. The model is on
  integers: on integer arguments whose result stays below \<open>2 ^ 53\<close> the double
  arithmetic of JavaScript is exact, and the theorems below stay in that range.
\<close>

definition estimateBatchGas :: "int \<Rightarrow> int" where
  "estimateBatchGas recipientCount = 50000 + recipientCount * 35000"

subsection \<open>validateBatchTransfer\<close>

text \<open>
  The function returns \<^verbatim>\<open>{ valid: true }\<close> or \<^verbatim>\<open>{ valid: false, error: msg }\<close>.
  Each message is one constructor:
  \<^item> \<open>EmptyBatch\<close>: "At least one recipient is required";
  \<^item> \<open>ArityMismatch\<close>: "Recipients and amounts must have the same length";
  \<^item> \<open>TooManyRecipients\<close>: "Maximum 200 recipients per batch";
  \<^item> \<open>InvalidRecipient i\<close>: "Invalid recipient address at index i";
  \<^item> \<open>InvalidAmount i\<close>: "Invalid amount at index i".
\<close>

datatype validation_error =
    EmptyBatch
  | ArityMismatch
  | TooManyRecipients
  | InvalidRecipient nat
  | InvalidAmount nat

datatype validation = Valid | Invalid validation_error

definition zero_address_string :: string where
  "zero_address_string = ''0x0000000000000000000000000000000000000000''"

text \<open>
  \<^verbatim>\<open>!recipients[i] || recipients[i] === "0x00...00"\<close>: a string is falsy exactly when
  it is empty.
\<close>

definition recipient_rejected :: "string \<Rightarrow> bool" where
  "recipient_rejected r = (r = [] \<or> r = zero_address_string)"

text \<open>
  \<^verbatim>\<open>amounts[i] <= BigInt(0)\<close>. The loop runs only after the two lengths were found
  equal; past the end of \<open>amounts\<close> JavaScript reads \<^verbatim>\<open>undefined\<close>, for which the
  comparison is false.
\<close>

definition amount_rejected :: "int list \<Rightarrow> nat \<Rightarrow> bool" where
  "amount_rejected amounts i = (if i < length amounts then amounts ! i \<le> 0 else False)"

function validate_from :: "string list \<Rightarrow> int list \<Rightarrow> nat \<Rightarrow> validation" where
  "validate_from recipients amounts i =
     (if i < length recipients then
        (if recipient_rejected (recipients ! i) then Invalid (InvalidRecipient i)
         else if amount_rejected amounts i then Invalid (InvalidAmount i)
         else validate_from recipients amounts (i + 1))
      else Valid)"
  by pat_completeness auto
termination
  by (relation "measure (\<lambda>(recipients, amounts, i). length recipients - i)") auto

declare validate_from.simps [simp del]

definition validateBatchTransfer :: "string list \<Rightarrow> int list \<Rightarrow> validation" where
  "validateBatchTransfer recipients amounts =
     (if length recipients = 0 then Invalid EmptyBatch
      else if length recipients \<noteq> length amounts then Invalid ArityMismatch
      else if length recipients > 200 then Invalid TooManyRecipients
      else validate_from recipients amounts 0)"

text \<open>
  The validator as the specification words it (section 4.1): the five checks in the
  order 1 to 5, every recipient before any amount.
\<close>

definition first_index :: "('a \<Rightarrow> bool) \<Rightarrow> 'a list \<Rightarrow> nat option" where
  "first_index P xs = find (\<lambda>i. P (xs ! i)) [0..<length xs]"

definition validate_spec :: "string list \<Rightarrow> int list \<Rightarrow> validation" where
  "validate_spec recipients amounts =
     (if length recipients \<noteq> length amounts then Invalid ArityMismatch
      else if length recipients < 1 then Invalid EmptyBatch
      else if length recipients > 200 then Invalid TooManyRecipients
      else case first_index (\<lambda>r. r = zero_address_string) recipients of
             Some i \<Rightarrow> Invalid (InvalidRecipient i)
           | None \<Rightarrow>
               (case first_index (\<lambda>a. a \<le> 0) amounts of
                  Some i \<Rightarrow> Invalid (InvalidAmount i)
                | None \<Rightarrow> Valid))"

text \<open>The first index at which the loop of \<open>validateBatchTransfer\<close> rejects an entry.\<close>

definition first_rejected :: "string list \<Rightarrow> int list \<Rightarrow> nat option" where
  "first_rejected recipients amounts =
     find (\<lambda>i. recipient_rejected (recipients ! i) \<or> amount_rejected amounts i)
       [0..<length recipients]"

section \<open>The BatchTransfer contract (BatchTransfer.sol)\<close>

text \<open>
  The custom errors of the contract, and the two ways a call can fail that the source
  does not name: \<open>Panic\<close> is the checked arithmetic and the array bounds check of
  Solidity 0.8, \<open>CallReverted\<close> is a revert inside the token that bubbles up.
\<close>

datatype error =
    ArraysLengthMismatch
  | ZeroAddress
  | ZeroAmount
  | TransferFailed
  | InsufficientAllowance
  | NotOwner
  | Panic
  | CallReverted

definition checked_add :: "uint256 \<Rightarrow> uint256 \<Rightarrow> error + uint256" where
  "checked_add a b = (if unat a + unat b < 2 ^ 256 then Inr (a + b) else Inl Panic)"

definition checked_mul :: "uint256 \<Rightarrow> uint256 \<Rightarrow> error + uint256" where
  "checked_mul a b = (if unat a * unat b < 2 ^ 256 then Inr (a * b) else Inl Panic)"

subsection \<open>keccak256\<close>

text \<open>
  The built-in hash of the contract, \<^verbatim>\<open>keccak256\<close>: the sponge over the permutation
  Keccak-f[1600] with a rate of 136 bytes, the padding \<open>0x01 \<dots> 0x80\<close> and 32 bytes of
  output. The state is a list of 25 lanes of 64 bits, lane \<open>(x, y)\<close> at index
  \<open>x + 5 * y\<close>; bytes enter and leave a lane least significant first.
\<close>

type_synonym lane = "64 word"

definition rol :: "lane \<Rightarrow> nat \<Rightarrow> lane" where
  "rol w n = push_bit n w OR drop_bit (64 - n) w"

definition round_constants :: "lane list" where
  "round_constants =
    [0x0000000000000001, 0x0000000000008082, 0x800000000000808A, 0x8000000080008000,
     0x000000000000808B, 0x0000000080000001, 0x8000000080008081, 0x8000000000008009,
     0x000000000000008A, 0x0000000000000088, 0x0000000080008009, 0x000000008000000A,
     0x000000008000808B, 0x800000000000008B, 0x8000000000008089, 0x8000000000008003,
     0x8000000000008002, 0x8000000000000080, 0x000000000000800A, 0x800000008000000A,
     0x8000000080008081, 0x8000000000008080, 0x0000000080000001, 0x8000000080008008]"

definition rotation_offsets :: "nat list" where
  "rotation_offsets =
    [ 0,  1, 62, 28, 27,
     36, 44,  6, 55, 20,
      3, 10, 43, 25, 39,
     41, 45, 15, 21,  8,
     18,  2, 61, 56, 14]"

text \<open>Theta: the parity of each column, the correction of each column, its application.\<close>

definition column_parity :: "lane list \<Rightarrow> lane list" where
  "column_parity a =
     map (\<lambda>x. a ! x XOR a ! (x + 5) XOR a ! (x + 10) XOR a ! (x + 15) XOR a ! (x + 20)) [0..<5]"

definition theta_effect :: "lane list \<Rightarrow> lane list" where
  "theta_effect c = map (\<lambda>x. c ! ((x + 4) mod 5) XOR rol (c ! ((x + 1) mod 5)) 1) [0..<5]"

definition theta_apply :: "lane list \<Rightarrow> lane list \<Rightarrow> lane list" where
  "theta_apply a d = map (\<lambda>i. a ! i XOR d ! (i mod 5)) [0..<25]"

definition theta :: "lane list \<Rightarrow> lane list" where
  "theta a = theta_apply a (theta_effect (column_parity a))"

text \<open>
  Rho and pi in one step: the lane that lands at \<open>(X, Y)\<close> comes from
  \<open>(x, y) = ((X + 3 * Y) mod 5, X)\<close>, rotated by the offset of its source position.
\<close>

definition rho_pi :: "lane list \<Rightarrow> lane list" where
  "rho_pi a =
    map (\<lambda>j. let s = (j mod 5 + 3 * (j div 5)) mod 5 + 5 * (j mod 5)
             in rol (a ! s) (rotation_offsets ! s)) [0..<25]"

definition chi :: "lane list \<Rightarrow> lane list" where
  "chi b =
    map (\<lambda>i. b ! i XOR (NOT (b ! ((i mod 5 + 1) mod 5 + 5 * (i div 5)))
                          AND b ! ((i mod 5 + 2) mod 5 + 5 * (i div 5)))) [0..<25]"

definition iota :: "lane \<Rightarrow> lane list \<Rightarrow> lane list" where
  "iota rc a = a[0 := a ! 0 XOR rc]"

definition keccak_round :: "lane list \<Rightarrow> lane \<Rightarrow> lane list" where
  "keccak_round a rc = iota rc (chi (rho_pi (theta a)))"

definition keccak_f :: "lane list \<Rightarrow> lane list" where
  "keccak_f a = foldl keccak_round a round_constants"

fun lane_of_bytes :: "byte list \<Rightarrow> lane" where
  "lane_of_bytes [] = 0"
| "lane_of_bytes (b # bs) = ucast b OR push_bit 8 (lane_of_bytes bs)"

definition bytes_of_lane :: "lane \<Rightarrow> byte list" where
  "bytes_of_lane w = map (\<lambda>k. ucast (drop_bit (8 * k) w)) [0..<8]"

fun chunks :: "nat \<Rightarrow> 'a list \<Rightarrow> 'a list list" where
  "chunks n [] = []"
| "chunks n (x # xs) =
     (if n = 0 then [x # xs] else take n (x # xs) # chunks n (drop n (x # xs)))"

definition pad :: "byte list \<Rightarrow> byte list" where
  "pad m =
    (let p = m @ [0x01] @ replicate (135 - length m mod 136) 0
     in p[length p - 1 := p ! (length p - 1) OR 0x80])"

definition absorb :: "lane list \<Rightarrow> byte list \<Rightarrow> lane list" where
  "absorb a block =
    keccak_f (map2 (XOR) a (map lane_of_bytes (chunks 8 block) @ replicate 8 0))"

definition keccak256 :: "byte list \<Rightarrow> bytes32" where
  "keccak256 m =
    concat (map bytes_of_lane (take 4 (foldl absorb (replicate 25 0) (chunks 136 (pad m)))))"

text \<open>Big-endian bytes of a word, as \<^verbatim>\<open>abi.encodePacked\<close> and the ABI lay them out.\<close>

definition be_bytes :: "nat \<Rightarrow> 'a::len word \<Rightarrow> byte list" where
  "be_bytes n w = map (\<lambda>k. ucast (drop_bit (8 * (n - 1 - k)) w)) [0..<n]"

subsection \<open>The funding token\<close>

text \<open>
  Modelled from the spec: the token behind \<^verbatim>\<open>interface IERC20\<close>, of which the repository
  has only the interface. Section 6 asks for "a standard balance/allowance/transfer/
  transferFrom interface" and section 7 names what makes a transfer fail ("insufficient
  balance, paused token, blocklisted recipient"). The model is one ledger per token:
  balances, allowances, a blocklist, and whether a refused transfer returns \<open>false\<close> or
  reverts (the interface allows both, and the contract tests the returned flag).
\<close>

record token_state =
  balanceOf :: "address \<Rightarrow> uint256"
  allowance :: "address \<Rightarrow> address \<Rightarrow> uint256"
  blocklisted :: "address \<Rightarrow> bool"
  returns_false :: bool

datatype 'a outcome = Reverts | Returns 'a

definition can_move :: "token_state \<Rightarrow> address \<Rightarrow> address \<Rightarrow> uint256 \<Rightarrow> bool" where
  "can_move t src dst amount =
     (\<not> blocklisted t src \<and> \<not> blocklisted t dst \<and> amount \<le> balanceOf t src
      \<and> (if src = dst then True else unat (balanceOf t dst) + unat amount < 2 ^ 256))"

definition move :: "token_state \<Rightarrow> address \<Rightarrow> address \<Rightarrow> uint256 \<Rightarrow> token_state" where
  "move t src dst amount =
     (let debited = (balanceOf t)(src := balanceOf t src - amount)
      in t\<lparr>balanceOf := debited(dst := debited dst + amount)\<rparr>)"

definition refuse :: "token_state \<Rightarrow> (bool \<times> token_state) outcome" where
  "refuse t = (if returns_false t then Returns (False, t) else Reverts)"

text \<open>\<open>caller\<close> is the \<^verbatim>\<open>msg.sender\<close> the token sees.\<close>

definition erc20_transfer ::
  "address \<Rightarrow> address \<Rightarrow> uint256 \<Rightarrow> token_state \<Rightarrow> (bool \<times> token_state) outcome" where
  "erc20_transfer caller recipient amount t =
     (if can_move t caller recipient amount
      then Returns (True, move t caller recipient amount)
      else refuse t)"

definition erc20_transferFrom ::
  "address \<Rightarrow> address \<Rightarrow> address \<Rightarrow> uint256 \<Rightarrow> token_state \<Rightarrow> (bool \<times> token_state) outcome"
  where
  "erc20_transferFrom caller src recipient amount t =
     (if amount \<le> allowance t src caller \<and> can_move t src recipient amount
      then Returns (True,
             (move t src recipient amount)
               \<lparr>allowance := (allowance t)(src := (allowance t src)(caller := allowance t src caller - amount))\<rparr>)
      else refuse t)"

subsection \<open>Chain state and calls into the token\<close>

datatype event =
    BatchTransferIndexed bytes32 address address uint256 uint256
  | TransferIndexed bytes32 address uint256

text \<open>
  \<open>tokens w a\<close> is the ledger of the token contract at address \<open>a\<close>, \<open>None\<close> where no
  token is deployed (a call to such an address reverts). \<open>events\<close> is the log, oldest
  first.
\<close>

record world =
  tokens :: "address \<Rightarrow> token_state option"
  events :: "event list"

definition emit :: "event \<Rightarrow> world \<Rightarrow> world" where
  "emit e w = w\<lparr>events := events w @ [e]\<rparr>"

definition call_allowance :: "address \<Rightarrow> address \<Rightarrow> address \<Rightarrow> world \<Rightarrow> error + uint256" where
  "call_allowance token holder spender w =
     (case tokens w token of
        None \<Rightarrow> Inl CallReverted
      | Some t \<Rightarrow> Inr (allowance t holder spender))"

definition returned :: "address \<Rightarrow> world \<Rightarrow> (bool \<times> token_state) outcome \<Rightarrow> world \<times> (error + bool)"
  where
  "returned token w r =
     (case r of
        Reverts \<Rightarrow> (w, Inl CallReverted)
      | Returns (ok, t') \<Rightarrow> (w\<lparr>tokens := (tokens w)(token \<mapsto> t')\<rparr>, Inr ok))"

definition call_transfer ::
  "address \<Rightarrow> address \<Rightarrow> address \<Rightarrow> uint256 \<Rightarrow> world \<Rightarrow> world \<times> (error + bool)" where
  "call_transfer token caller recipient amount w =
     (case tokens w token of
        None \<Rightarrow> (w, Inl CallReverted)
      | Some t \<Rightarrow> returned token w (erc20_transfer caller recipient amount t))"

definition call_transferFrom ::
  "address \<Rightarrow> address \<Rightarrow> address \<Rightarrow> address \<Rightarrow> uint256 \<Rightarrow> world \<Rightarrow> world \<times> (error + bool)"
  where
  "call_transferFrom token caller src recipient amount w =
     (case tokens w token of
        None \<Rightarrow> (w, Inl CallReverted)
      | Some t \<Rightarrow> returned token w (erc20_transferFrom caller src recipient amount t))"

text \<open>
  A call that reverts leaves the chain as it was before the call, whatever its body and
  the token had done until then; a call that returns keeps its effects.
\<close>

definition transaction :: "(world \<Rightarrow> world \<times> (error + 'a)) \<Rightarrow> world \<Rightarrow> world \<times> (error + 'a)"
  where
  "transaction body w =
     (case body w of
        (w', Inl e) \<Rightarrow> (w, Inl e)
      | (w', Inr r) \<Rightarrow> (w', Inr r))"

subsection \<open>Contract state, constructor, call context\<close>

text \<open>
  \<open>owner\<close> is the \<^verbatim>\<open>immutable\<close> field, \<open>self\<close> is \<^verbatim>\<open>address(this)\<close>. No function of
  the contract returns a changed \<open>contract\<close>.
\<close>

record contract =
  owner :: address
  self :: address

definition constructor :: "address \<Rightarrow> address \<Rightarrow> contract" where
  "constructor msg_sender deployed_at = \<lparr>owner = msg_sender, self = deployed_at\<rparr>"

text \<open>\<^verbatim>\<open>msg.sender\<close>, \<^verbatim>\<open>block.timestamp\<close> and \<^verbatim>\<open>block.number\<close> of a call.\<close>

record message =
  sender :: address
  timestamp :: uint256
  number :: uint256

subsection \<open>batchSend\<close>

text \<open>
  The first loop, \<^verbatim>\<open>for (i = 0; i < amounts.length; i++)\<close>, with the running
  \<open>totalAmount\<close>; an index past the end of \<open>recipients\<close> and an overflow of the sum panic.
\<close>

function total_from :: "address list \<Rightarrow> uint256 list \<Rightarrow> nat \<Rightarrow> uint256 \<Rightarrow> error + uint256" where
  "total_from recipients amounts i totalAmount =
     (if i < length amounts then
        (if length recipients \<le> i then Inl Panic
         else if recipients ! i = 0 then Inl ZeroAddress
         else if amounts ! i = 0 then Inl ZeroAmount
         else case checked_add totalAmount (amounts ! i) of
                Inl e \<Rightarrow> Inl e
              | Inr t \<Rightarrow> total_from recipients amounts (i + 1) t)
      else Inr totalAmount)"
  by pat_completeness auto
termination
  by (relation "measure (\<lambda>(recipients, amounts, i, totalAmount). length amounts - i)") auto

declare total_from.simps [simp del]

definition batch_id :: "message \<Rightarrow> address \<Rightarrow> nat \<Rightarrow> bytes32" where
  "batch_id m token recipient_count =
     keccak256
       (be_bytes 32 (timestamp m) @ be_bytes 20 (sender m) @ be_bytes 20 token
        @ be_bytes 32 (of_nat recipient_count :: uint256) @ be_bytes 32 (number m))"

text \<open>The second loop, \<^verbatim>\<open>for (i = 0; i < recipients.length; i++)\<close>.\<close>

function distribute_from ::
  "contract \<Rightarrow> address \<Rightarrow> bytes32 \<Rightarrow> address list \<Rightarrow> uint256 list \<Rightarrow> nat \<Rightarrow> world
   \<Rightarrow> world \<times> (error + unit)" where
  "distribute_from c token batchId recipients amounts i w =
     (if i < length recipients then
        (if length amounts \<le> i then (w, Inl Panic)
         else case call_transfer token (self c) (recipients ! i) (amounts ! i) w of
           (w', r) \<Rightarrow>
             (case r of
                Inl e \<Rightarrow> (w', Inl e)
              | Inr ok \<Rightarrow>
                  if \<not> ok then (w', Inl TransferFailed)
                  else distribute_from c token batchId recipients amounts (i + 1)
                         (emit (TransferIndexed batchId (recipients ! i) (amounts ! i)) w')))
      else (w, Inr ()))"
  by pat_completeness auto
termination
  by (relation "measure (\<lambda>(c, token, batchId, recipients, amounts, i, w). length recipients - i)")
    auto

declare distribute_from.simps [simp del]

definition batchSend_body ::
  "contract \<Rightarrow> message \<Rightarrow> address \<Rightarrow> address list \<Rightarrow> uint256 list \<Rightarrow> world
   \<Rightarrow> world \<times> (error + bytes32)" where
  "batchSend_body c m token recipients amounts w =
     (if length recipients \<noteq> length amounts then (w, Inl ArraysLengthMismatch)
      else if length recipients = 0 then (w, Inl ZeroAmount)
      else case total_from recipients amounts 0 0 of
        Inl e \<Rightarrow> (w, Inl e)
      | Inr totalAmount \<Rightarrow>
          (let batchId = batch_id m token (length recipients)
           in case call_allowance token (sender m) (self c) w of
             Inl e \<Rightarrow> (w, Inl e)
           | Inr allowed \<Rightarrow>
               if allowed < totalAmount then (w, Inl InsufficientAllowance)
               else case call_transferFrom token (self c) (sender m) (self c) totalAmount w of
                 (w1, r) \<Rightarrow>
                   (case r of
                      Inl e \<Rightarrow> (w1, Inl e)
                    | Inr ok \<Rightarrow>
                        if \<not> ok then (w1, Inl TransferFailed)
                        else case distribute_from c token batchId recipients amounts 0 w1 of
                          (w2, d) \<Rightarrow>
                            (case d of
                               Inl e \<Rightarrow> (w2, Inl e)
                             | Inr u \<Rightarrow>
                                 (emit (BatchTransferIndexed batchId token (sender m) totalAmount
                                          (of_nat (length recipients))) w2,
                                  Inr batchId)))))"

definition batchSend ::
  "contract \<Rightarrow> message \<Rightarrow> address \<Rightarrow> address list \<Rightarrow> uint256 list \<Rightarrow> world
   \<Rightarrow> world \<times> (error + bytes32)" where
  "batchSend c m token recipients amounts =
     transaction (batchSend_body c m token recipients amounts)"

subsection \<open>emergencyWithdraw\<close>

text \<open>The flag that \<^verbatim>\<open>transfer\<close> returns is dropped, as in the source.\<close>

definition emergencyWithdraw_body ::
  "contract \<Rightarrow> message \<Rightarrow> address \<Rightarrow> uint256 \<Rightarrow> world \<Rightarrow> world \<times> (error + unit)" where
  "emergencyWithdraw_body c m token amount w =
     (if sender m \<noteq> owner c then (w, Inl NotOwner)
      else case call_transfer token (self c) (sender m) amount w of
        (w', r) \<Rightarrow>
          (case r of
             Inl e \<Rightarrow> (w', Inl e)
           | Inr ok \<Rightarrow> (w', Inr ())))"

definition emergencyWithdraw ::
  "contract \<Rightarrow> message \<Rightarrow> address \<Rightarrow> uint256 \<Rightarrow> world \<Rightarrow> world \<times> (error + unit)" where
  "emergencyWithdraw c m token amount = transaction (emergencyWithdraw_body c m token amount)"

text \<open>The balance of an account in a token, as \<^verbatim>\<open>balanceOf\<close> would report it.\<close>

definition balance :: "world \<Rightarrow> address \<Rightarrow> address \<Rightarrow> nat" where
  "balance w token a = (case tokens w token of None \<Rightarrow> 0 | Some t \<Rightarrow> unat (balanceOf t a))"

subsection \<open>estimateGas, getBatchStatus, MAX_RECIPIENTS\<close>

definition estimateGas :: "uint256 \<Rightarrow> error + uint256" where
  "estimateGas recipientCount =
     (case checked_mul recipientCount 35000 of
        Inl e \<Rightarrow> Inl e
      | Inr p \<Rightarrow> checked_add 50000 p)"

definition getBatchStatus :: "bytes32 \<Rightarrow> bool" where
  "getBatchStatus batchId = True"

definition MAX_RECIPIENTS :: uint256 where
  "MAX_RECIPIENTS = 200"

section \<open>Client library: call data and dispatch (batch-contract.ts)\<close>

text \<open>A thrown JavaScript \<^verbatim>\<open>Error\<close> with its message.\<close>

datatype exn = Error string

subsection \<open>getBatchTransferCalldata\<close>

text \<open>
  The function checks the two lengths and hands over to \<^verbatim>\<open>encodeFunctionData\<close> of the
  viem library with the one-function ABI
  \<^verbatim>\<open>function batchSend(address token, address[] recipients, uint256[] amounts) returns (bytes32)\<close>.
  The library call is the parameter \<open>encode\<close>.
\<close>

definition getBatchTransferCalldata ::
  "('a \<Rightarrow> 'a list \<Rightarrow> int list \<Rightarrow> exn + 'b) \<Rightarrow> 'a \<Rightarrow> 'a list \<Rightarrow> int list \<Rightarrow> exn + 'b" where
  "getBatchTransferCalldata encode token recipients amounts =
     (if length recipients \<noteq> length amounts
      then Inl (Error ''Recipients and amounts arrays must have the same length'')
      else encode token recipients amounts)"

text \<open>
  Modelled from the spec: \<^verbatim>\<open>encodeFunctionData\<close> for that ABI, which is code of the viem
  library. Section 4.2: "a fixed 4-byte function selector \<dots> followed by the ABI-style
  positional encoding of (token, recipient list, amount list) using 32-byte-aligned
  words, dynamic-array length prefixes, and big-endian integer encoding"; section 6:
  "selector is the first 4 bytes of a standard hash of the canonical signature string",
  the hash being keccak256. Addresses are taken as parsed 160-bit values; an amount
  outside the range of \<^verbatim>\<open>uint256\<close> makes the library throw.
\<close>

definition batchSend_signature :: string where
  "batchSend_signature = ''batchSend(address,address[],uint256[])''"

definition function_selector :: "string \<Rightarrow> byte list" where
  "function_selector signature = take 4 (keccak256 (map of_char signature))"

definition abi_uint :: "nat \<Rightarrow> byte list" where
  "abi_uint n = be_bytes 32 (of_nat n :: uint256)"

definition abi_address :: "address \<Rightarrow> byte list" where
  "abi_address a = be_bytes 32 (ucast a :: uint256)"

definition encodeFunctionData_batchSend ::
  "address \<Rightarrow> address list \<Rightarrow> int list \<Rightarrow> exn + byte list" where
  "encodeFunctionData_batchSend token recipients amounts =
     (if list_ex (\<lambda>a. a < 0 \<or> 2 ^ 256 \<le> a) amounts
      then Inl (Error ''Number is not in safe 256-bit unsigned integer range'')
      else Inr (function_selector batchSend_signature
                @ abi_address token
                @ abi_uint 96
                @ abi_uint (96 + 32 + 32 * length recipients)
                @ abi_uint (length recipients) @ concat (map abi_address recipients)
                @ abi_uint (length amounts)
                @ concat (map (\<lambda>a. be_bytes 32 (of_int a :: uint256)) amounts)))"

subsection \<open>Contract address, total_amount\<close>

definition BATCH_CONTRACT_ADDRESSES :: "nat \<Rightarrow> string option" where
  "BATCH_CONTRACT_ADDRESSES = Map.empty(84532 \<mapsto> ''0xca60bFd1D0eAfDf051885221ec4DF0510ceee944'')"

text \<open>\<open>chainId\<close> is what \<^verbatim>\<open>getChainId()\<close> returns.\<close>

definition getBatchContractAddress :: "nat \<Rightarrow> string" where
  "getBatchContractAddress chainId =
     (case BATCH_CONTRACT_ADDRESSES chainId of None \<Rightarrow> [] | Some a \<Rightarrow> a)"

definition isBatchContractDeployed :: "nat \<Rightarrow> bool" where
  "isBatchContractDeployed chainId =
     (let address = getBatchContractAddress chainId
      in address \<noteq> [] \<and> address \<noteq> zero_address_string)"

definition calculateTotalAmount :: "int list \<Rightarrow> int" where
  "calculateTotalAmount amounts = foldl (\<lambda>sum amount. sum + amount) 0 amounts"

subsection \<open>Strings\<close>

definition digit_char :: "nat \<Rightarrow> char" where
  "digit_char d = ''0123456789abcdef'' ! d"

function show_nat :: "nat \<Rightarrow> string" where
  "show_nat n = (if n < 10 then [digit_char n] else show_nat (n div 10) @ [digit_char (n mod 10)])"
  by pat_completeness auto
termination
  by (relation "measure id") auto

declare show_nat.simps [simp del]

text \<open>\<^verbatim>\<open>toString()\<close> of a bigint.\<close>

definition show_int :: "int \<Rightarrow> string" where
  "show_int i = (if i < 0 then CHR ''-'' # show_nat (nat (- i)) else show_nat (nat i))"

text \<open>\<^verbatim>\<open>Buffer.from(s).toString("hex")\<close> on an ASCII string.\<close>

definition hex_of_string :: "string \<Rightarrow> string" where
  "hex_of_string s =
     concat (map (\<lambda>c. [digit_char (of_char c div 16), digit_char (of_char c mod 16)]) s)"

text \<open>The messages of \<open>validateBatchTransfer\<close>.\<close>

fun error_message :: "validation_error \<Rightarrow> string" where
  "error_message EmptyBatch = ''At least one recipient is required''"
| "error_message ArityMismatch = ''Recipients and amounts must have the same length''"
| "error_message TooManyRecipients = ''Maximum 200 recipients per batch''"
| "error_message (InvalidRecipient i) = ''Invalid recipient address at index '' @ show_nat i"
| "error_message (InvalidAmount i) = ''Invalid amount at index '' @ show_nat i"

subsection \<open>executeBatchTransfer\<close>

record BatchTransferResult =
  batchId :: string
  txHash :: string
  totalAmount :: string
  recipientCount :: nat
  success :: bool
  error :: "string option"

text \<open>
  What the function reads from its surroundings. \<open>toMicroUnits\<close> is
  \<^verbatim>\<open>BigInt(Math.floor(a * 1_000_000))\<close> on a JavaScript number (a double, so its
  rounding is left to the parameter; \<^verbatim>\<open>BigInt\<close> throws on a value that is not finite).
  \<open>encodeFunctionData\<close> is the viem call on address strings, \<open>Date_now\<close> and
  \<open>Math_random_hex\<close> are \<^verbatim>\<open>Date.now()\<close> and
  \<^verbatim>\<open>Math.random().toString(16).slice(2, 66)\<close>.
\<close>

record 'n host =
  getChainId :: nat
  getUSDCAddress :: string
  toMicroUnits :: "'n \<Rightarrow> exn + int"
  encodeFunctionData :: "string \<Rightarrow> string list \<Rightarrow> int list \<Rightarrow> exn + string"
  Date_now :: nat
  Math_random_hex :: string

record transaction_request =
  request_to :: string
  request_data :: string

text \<open>
  The untyped \<^verbatim>\<open>xellarClient\<close>: each of the three submission methods is there or not. A
  method that is there either throws or resolves, \<open>contract.send\<close> to the hash,
  the other two to an object whose \<^verbatim>\<open>hash\<close> may be missing.
\<close>

record xellarClient =
  contract_send :: "(transaction_request \<Rightarrow> exn + string) option"
  wallet_sendTransaction :: "(transaction_request \<Rightarrow> exn + string option) option"
  account_send :: "(transaction_request \<Rightarrow> exn + string option) option"

record recipient_entry =
  recipient_id :: string
  recipient_name :: string
  walletAddress :: string

definition failed :: "string \<Rightarrow> BatchTransferResult" where
  "failed msg =
     \<lparr>batchId = [], txHash = [], totalAmount = ''0'', recipientCount = 0, success = False,
      error = Some msg\<rparr>"

text \<open>\<^verbatim>\<open>params.amounts.map(...)\<close> with a callback that may throw.\<close>

fun map_throwing :: "('a \<Rightarrow> exn + 'b) \<Rightarrow> 'a list \<Rightarrow> exn + 'b list" where
  "map_throwing f [] = Inr []"
| "map_throwing f (x # xs) =
     (case f x of
        Inl e \<Rightarrow> Inl e
      | Inr y \<Rightarrow> (case map_throwing f xs of Inl e \<Rightarrow> Inl e | Inr ys \<Rightarrow> Inr (y # ys)))"

text \<open>The result after a submission: \<^verbatim>\<open>batchId = txHash || "0x" + hex(Date.now())\<close>.\<close>

definition submitted :: "'n host \<Rightarrow> string \<Rightarrow> int \<Rightarrow> nat \<Rightarrow> BatchTransferResult" where
  "submitted h hash total_amount n =
     \<lparr>batchId = (if hash \<noteq> [] then hash else ''0x'' @ hex_of_string (show_nat (Date_now h))),
      txHash = hash, totalAmount = show_int total_amount, recipientCount = n, success = True,
      error = None\<rparr>"

definition hash_or_empty :: "string option \<Rightarrow> string" where
  "hash_or_empty r = (case r of None \<Rightarrow> [] | Some hash \<Rightarrow> hash)"

text \<open>The body of the \<^verbatim>\<open>try\<close> block; \<open>Inl\<close> is an exception on its way to \<^verbatim>\<open>catch\<close>.\<close>

definition executeBatchTransfer_try ::
  "'n host \<Rightarrow> xellarClient \<Rightarrow> recipient_entry list \<Rightarrow> 'n list \<Rightarrow> exn + BatchTransferResult"
  where
  "executeBatchTransfer_try h client recipients amounts =
     (let contractAddress = getBatchContractAddress (getChainId h) in
      if \<not> isBatchContractDeployed (getChainId h)
      then Inr (failed ''Batch contract not deployed on current network'')
      else case map_throwing (toMicroUnits h) amounts of
        Inl e \<Rightarrow> Inl e
      | Inr amountsBigInt \<Rightarrow>
          (let recipientAddresses = map walletAddress recipients in
           case validateBatchTransfer recipientAddresses amountsBigInt of
             Invalid err \<Rightarrow> Inr (failed (error_message err))
           | Valid \<Rightarrow>
               (let total_amount = calculateTotalAmount amountsBigInt in
                case getBatchTransferCalldata (encodeFunctionData h) (getUSDCAddress h)
                       recipientAddresses amountsBigInt of
                  Inl e \<Rightarrow> Inl e
                | Inr callData \<Rightarrow>
                    (let request = \<lparr>request_to = contractAddress, request_data = callData\<rparr> in
                     case contract_send client of
                       Some send \<Rightarrow>
                         (case send request of
                            Inl e \<Rightarrow> Inl e
                          | Inr hash \<Rightarrow> Inr (submitted h hash total_amount (length recipients)))
                     | None \<Rightarrow>
                         (case wallet_sendTransaction client of
                            Some send \<Rightarrow>
                              (case send request of
                                 Inl e \<Rightarrow> Inl e
                               | Inr r \<Rightarrow>
                                   Inr (submitted h (hash_or_empty r) total_amount (length recipients)))
                          | None \<Rightarrow>
                              (case account_send client of
                                 Some send \<Rightarrow>
                                   (case send request of
                                      Inl e \<Rightarrow> Inl e
                                    | Inr r \<Rightarrow>
                                        Inr (submitted h (hash_or_empty r) total_amount
                                               (length recipients)))
                               | None \<Rightarrow>
                                   Inr \<lparr>batchId = ''batch_'' @ show_nat (Date_now h),
                                        txHash = ''0x'' @ Math_random_hex h,
                                        totalAmount = show_int total_amount,
                                        recipientCount = length recipients,
                                        success = True,
                                        error = Some ''SDK method not found - mock transaction''\<rparr>))))))"

definition executeBatchTransfer ::
  "'n host \<Rightarrow> xellarClient \<Rightarrow> recipient_entry list \<Rightarrow> 'n list \<Rightarrow> BatchTransferResult" where
  "executeBatchTransfer h client recipients amounts =
     (case executeBatchTransfer_try h client recipients amounts of
        Inl (Error msg) \<Rightarrow> failed (if msg \<noteq> [] then msg else ''Batch transfer failed'')
      | Inr r \<Rightarrow> r)"

text \<open>
  A host on Base Sepolia whose amounts are whole dollars and whose encoder returns some
  call data, and a client object with none of the three methods.
\<close>

definition example_host :: "int host" where
  "example_host =
     \<lparr>getChainId = 84532,
      getUSDCAddress = ''0x036CbD53842c5426634e7929541eC2318f3dCF7e'',
      toMicroUnits = (\<lambda>a. Inr (a * 1000000)),
      encodeFunctionData = (\<lambda>token recipients amounts. Inr ''0x19648bed''),
      Date_now = 1700000000000,
      Math_random_hex = ''8f3a''\<rparr>"

definition no_capability :: xellarClient where
  "no_capability = \<lparr>contract_send = None, wallet_sendTransaction = None, account_send = None\<rparr>"

definition example_recipient :: recipient_entry where
  "example_recipient =
     \<lparr>recipient_id = ''r1'', recipient_name = ''Bob'',
      walletAddress = ''0x8ba1f109551bD432803012645Ac136ddd64DBA72''\<rparr>"

section \<open>Quantities and examples for the properties\<close>

subsection \<open>Quantities the properties speak about\<close>

text \<open>What an account receives from a batch: the amounts of the entries addressed to it.\<close>

definition received :: "address list \<Rightarrow> uint256 list \<Rightarrow> address \<Rightarrow> nat" where
  "received recipients amounts a =
     sum_list (map (\<lambda>(r, x). if r = a then unat x else 0) (zip recipients amounts))"

text \<open>The change one transfer makes to the balance of account \<open>a\<close>.\<close>

definition flow :: "address \<Rightarrow> address \<Rightarrow> uint256 \<Rightarrow> address \<Rightarrow> int" where
  "flow src dst amount a =
     (if a = dst then int (unat amount) else 0) - (if a = src then int (unat amount) else 0)"

text \<open>The error \<open>batchSend\<close> ends with when the token refuses a transfer.\<close>

definition refusal :: "token_state \<Rightarrow> error" where
  "refusal t = (if returns_false t then TransferFailed else CallReverted)"

subsection \<open>A concrete chain for the examples\<close>

text \<open>
  The engine at its Base Sepolia address, the test-net USDC, a sender with 10 USDC who
  approved 5 USDC, 500 units stranded on the engine, one blocklisted account. The token
  answers \<open>false\<close> when it refuses a transfer.
\<close>

definition alice :: address where "alice = 0xA11CE"
definition bob :: address where "bob = 0xB0B"
definition carol :: address where "carol = 0xCA201"
definition mallory :: address where "mallory = 0xBAD"
definition deployer :: address where "deployer = 0xD0"
definition usdc :: address where "usdc = 0x036CbD53842c5426634e7929541eC2318f3dCF7e"
definition engine_address :: address where
  "engine_address = 0xca60bFd1D0eAfDf051885221ec4DF0510ceee944"

definition engine :: contract where
  "engine = constructor deployer engine_address"

definition usdc_ledger :: token_state where
  "usdc_ledger =
     \<lparr>balanceOf = (\<lambda>a. 0)(alice := 10000000, engine_address := 500),
      allowance = (\<lambda>a b. 0)(alice := (\<lambda>b. 0)(engine_address := 5000000)),
      blocklisted = (\<lambda>a. a = mallory),
      returns_false = True\<rparr>"

definition world0 :: world where
  "world0 = \<lparr>tokens = Map.empty(usdc \<mapsto> usdc_ledger), events = []\<rparr>"

text \<open>The same chain with one more account, which approved 1000 units and holds none.\<close>

definition dave :: address where "dave = 0xDA7E"

definition world1 :: world where
  "world1 =
     \<lparr>tokens = Map.empty(usdc \<mapsto> usdc_ledger
        \<lparr>allowance := (allowance usdc_ledger)(dave := (\<lambda>b. 0)(engine_address := 1000))\<rparr>),
      events = []\<rparr>"

definition call_by :: "address \<Rightarrow> message" where
  "call_by a = \<lparr>sender = a, timestamp = 1700000000, number = 17\<rparr>"

section \<open>Properties\<close>

subsection \<open>Cost estimator\<close>

lemma unat_of_nat_uint256:
  "n < 2 ^ 256 \<Longrightarrow> unat (of_nat n :: uint256) = n"
  by (simp add: unat_of_nat)

lemma unat_numeral_uint256:
  "numeral k < (2::nat) ^ 256 \<Longrightarrow> unat (numeral k :: uint256) = numeral k"
  using unat_of_nat_uint256 [of "numeral k"] by (simp only: of_nat_numeral)

lemma estimateGas_value:
  assumes "50000 + n * 35000 < (2::nat) ^ 256"
  shows "estimateGas (of_nat n) = Inr (of_nat (50000 + n * 35000))"
proof -
  have n: "n < 2 ^ 256" using assms by simp
  have un: "unat (of_nat n :: uint256) = n"
    using n by (rule unat_of_nat_uint256)
  have u35: "unat (35000 :: uint256) = 35000"
    by (rule unat_numeral_uint256) simp
  have u50: "unat (50000 :: uint256) = 50000"
    by (rule unat_numeral_uint256) simp
  have m: "n * 35000 < 2 ^ 256" using assms by simp
  have p: "of_nat n * (35000 :: uint256) = of_nat (n * 35000)"
    by (simp only: of_nat_mult of_nat_numeral)
  have um: "unat (of_nat n * 35000 :: uint256) = n * 35000"
    using m by (simp only: p unat_of_nat_uint256)
  have mul: "checked_mul (of_nat n) 35000 = Inr (of_nat n * 35000)"
    using m by (simp only: checked_mul_def un u35 if_True)
  have add: "checked_add 50000 (of_nat n * 35000) = Inr (50000 + of_nat n * 35000)"
    using assms by (simp only: checked_add_def um u50 if_True)
  have r: "50000 + of_nat n * (35000 :: uint256) = of_nat (50000 + n * 35000)"
    by (simp only: of_nat_add of_nat_mult of_nat_numeral)
  show ?thesis
    by (simp only: estimateGas_def mul add r sum.case)
qed

text \<open>
  C6: for every recipient count \<open>n\<close> of the estimator's contract (an unsigned 32-bit
  count) both estimators, the TypeScript \<open>estimateBatchGas\<close> and the contract's
  \<open>estimateGas\<close>, return \<open>50000 + n * 35000\<close>; the estimate of 0 is 50000 and one more
  recipient costs 35000 more.
\<close>

theorem estimate_formula:
  assumes "n < 2 ^ 32"
  shows "estimateBatchGas (int n) = 50000 + int n * 35000
       \<and> estimateBatchGas 0 = 50000
       \<and> estimateBatchGas (int n + 1) = estimateBatchGas (int n) + 35000
       \<and> estimateGas (of_nat n) = Inr (of_nat (50000 + n * 35000))
       \<and> unat (of_nat (50000 + n * 35000) :: uint256) = 50000 + n * 35000
       \<and> estimateGas 0 = Inr 50000
       \<and> estimateGas (of_nat (n + 1)) = Inr (of_nat (50000 + n * 35000) + 35000)"
proof -
  have b: "50000 + (n + 1) * 35000 < (2::nat) ^ 256"
  proof -
    have "50000 + (n + 1) * 35000 < 50000 + (2 ^ 32 + 1) * (35000::nat)"
      using assms by simp
    also have "\<dots> < 2 ^ 256" by simp
    finally show ?thesis .
  qed
  then have a: "50000 + n * 35000 < (2::nat) ^ 256" by simp
  have g: "estimateGas (of_nat n) = Inr (of_nat (50000 + n * 35000))"
    using a by (rule estimateGas_value)
  have u: "unat (of_nat (50000 + n * 35000) :: uint256) = 50000 + n * 35000"
    using a by (rule unat_of_nat_uint256)
  have z: "estimateGas 0 = Inr 50000"
    using estimateGas_value [of 0] by simp
  have s: "estimateGas (of_nat (n + 1)) = Inr (of_nat (50000 + n * 35000) + 35000)"
    using estimateGas_value [OF b] by (simp add: algebra_simps)
  show ?thesis
    using g u z s by (simp add: estimateBatchGas_def)
qed

theorem estimate_formula_witness:
  "estimateBatchGas 200 = 7050000 \<and> estimateGas 200 = Inr 7050000
   \<and> estimateGas 201 = Inr 7085000"
  using estimate_formula [of 200] by simp

subsection \<open>Batch status\<close>

text \<open>
  C10: \<open>getBatchStatus\<close> is the constant function \<open>True\<close>: it answers \<open>completed = true\<close>
  for every identifier, and so gives the same answer for any two identifiers, whether or
  not a batch ever produced them.
\<close>

theorem getBatchStatus_constant:
  "getBatchStatus bid = True \<and> getBatchStatus bid = getBatchStatus bid'"
  by (simp add: getBatchStatus_def)

subsection \<open>Batch validator\<close>

lemma validate_from_find:
  "validate_from rs as i =
     (case find (\<lambda>j. recipient_rejected (rs ! j) \<or> amount_rejected as j) [i..<length rs] of
        None \<Rightarrow> Valid
      | Some j \<Rightarrow> if recipient_rejected (rs ! j) then Invalid (InvalidRecipient j)
                  else Invalid (InvalidAmount j))"
proof (induction rs as i rule: validate_from.induct)
  case (1 rs as i)
  show ?case
  proof (cases "i < length rs")
    case True
    then have u: "[i..<length rs] = i # [i + 1..<length rs]"
      by (simp add: upt_conv_Cons)
    show ?thesis
      using True 1 by (subst validate_from.simps) (simp add: u)
  next
    case False
    then show ?thesis
      by (subst validate_from.simps) simp
  qed
qed

text \<open>
  C4 (as amended): \<open>validateBatchTransfer\<close> checks, in this order, that there is at least
  one recipient (else \<open>EmptyBatch\<close>), that the two lengths agree (else
  \<open>ArityMismatch\<close>), that there are at most 200 recipients (else
  \<open>TooManyRecipients\<close>), and then walks the indices upwards: at the first index whose
  recipient is empty or the zero address or whose amount is not positive it reports
  \<open>InvalidRecipient\<close> if the recipient is the offender and \<open>InvalidAmount\<close> otherwise.
\<close>

theorem validate_order:
  "validateBatchTransfer rs as =
     (if rs = [] then Invalid EmptyBatch
      else if length rs \<noteq> length as then Invalid ArityMismatch
      else if 200 < length rs then Invalid TooManyRecipients
      else case first_rejected rs as of
             None \<Rightarrow> Valid
           | Some i \<Rightarrow> if recipient_rejected (rs ! i) then Invalid (InvalidRecipient i)
                       else Invalid (InvalidAmount i))"
  by (simp add: validateBatchTransfer_def first_rejected_def validate_from_find)

lemma first_rejected_least:
  assumes "first_rejected rs as = Some i"
  shows "i < length rs"
    and "recipient_rejected (rs ! i) \<or> amount_rejected as i"
    and "\<forall>j<i. \<not> recipient_rejected (rs ! j) \<and> \<not> amount_rejected as j"
  using assms unfolding first_rejected_def
  by (auto simp: find_Some_iff)

lemma first_rejected_none:
  "first_rejected rs as = None \<longleftrightarrow>
     (\<forall>j<length rs. \<not> recipient_rejected (rs ! j) \<and> \<not> amount_rejected as j)"
  unfolding first_rejected_def by (auto simp: find_None_iff)

text \<open>
  C4 as stated fails: with no recipient and one amount the code answers \<open>EmptyBatch\<close>
  where the stated order answers \<open>ArityMismatch\<close>, and a non-positive amount at index 0
  is reported before a zero-address recipient at index 1.
\<close>

theorem validate_order_counterexample:
  "validateBatchTransfer [] [1] = Invalid EmptyBatch
   \<and> validate_spec [] [1] = Invalid ArityMismatch
   \<and> validateBatchTransfer [''0xaaaaaaaaaaaaaaaaaaaaaaaaaaaaaaaaaaaaaaaa'', zero_address_string] [0, 1]
       = Invalid (InvalidAmount 0)
   \<and> validate_spec [''0xaaaaaaaaaaaaaaaaaaaaaaaaaaaaaaaaaaaaaaaa'', zero_address_string] [0, 1]
       = Invalid (InvalidRecipient 1)"
  by (simp add: validateBatchTransfer_def validate_spec_def validate_from.simps
      recipient_rejected_def amount_rejected_def zero_address_string_def first_index_def)

subsection \<open>The summation loop\<close>

lemma checked_add_Inr:
  "checked_add a b = Inr s \<Longrightarrow> unat s = unat a + unat b"
  by (auto simp: checked_add_def unat_add_lem [THEN iffD1] split: if_splits)

lemma total_from_sum:
  "total_from rs as i t = Inr T \<Longrightarrow> unat T = unat t + sum_list (map unat (drop i as))"
proof (induction rs as i t rule: total_from.induct)
  case (1 rs as i t)
  show ?case
  proof (cases "i < length as")
    case True
    from "1.prems" True obtain t' where
      ok: "\<not> length rs \<le> i" "rs ! i \<noteq> 0" "as ! i \<noteq> 0"
      and add: "checked_add t (as ! i) = Inr t'"
      and rest: "total_from rs as (i + 1) t' = Inr T"
      by (subst (asm) total_from.simps) (auto split: if_splits sum.splits)
    have "unat T = unat t' + sum_list (map unat (drop (i + 1) as))"
      using "1.IH" [OF True ok add rest] .
    moreover have "unat t' = unat t + unat (as ! i)"
      using add by (rule checked_add_Inr)
    moreover have "drop i as = as ! i # drop (i + 1) as"
      using True by (simp add: Cons_nth_drop_Suc)
    ultimately show ?thesis by simp
  next
    case False
    with "1.prems" show ?thesis
      by (subst (asm) total_from.simps) simp
  qed
qed

lemma total_from_succeeds:
  assumes "length rs = length as"
    and "\<forall>j<length as. rs ! j \<noteq> 0 \<and> as ! j \<noteq> 0"
    and "unat t + sum_list (map unat (drop i as)) < 2 ^ 256"
  shows "\<exists>T. total_from rs as i t = Inr T"
  using assms
proof (induction "length as - i" arbitrary: i t)
  case 0
  then have "\<not> i < length as" by simp
  then show ?case by (subst total_from.simps) simp
next
  case (Suc n)
  then have lt: "i < length as" by simp
  have d: "drop i as = as ! i # drop (i + 1) as"
    using lt by (simp add: Cons_nth_drop_Suc)
  have room: "unat t + unat (as ! i) < 2 ^ 256"
    using Suc.prems(3) by (simp add: d)
  then have add: "checked_add t (as ! i) = Inr (t + as ! i)"
    by (simp add: checked_add_def)
  have u: "unat (t + as ! i) = unat t + unat (as ! i)"
    using add by (rule checked_add_Inr)
  have n: "n = length as - (i + 1)" using Suc.hyps(2) by simp
  have "\<exists>T. total_from rs as (i + 1) (t + as ! i) = Inr T"
    using Suc.hyps(1) [OF n Suc.prems(1,2)] Suc.prems(3) by (simp add: d u)
  then show ?case
    using lt Suc.prems(1,2) add by (subst total_from.simps) simp
qed

subsection \<open>What a transfer does to the balances\<close>

lemma move_balance_nat:
  assumes "can_move t src dst amount"
  shows "unat (balanceOf (move t src dst amount) a) + (if a = src then unat amount else 0)
         = unat (balanceOf t a) + (if a = dst then unat amount else 0)"
proof (cases "src = dst")
  case True
  then show ?thesis by (simp add: move_def Let_def)
next
  case False
  have le: "amount \<le> balanceOf t src" using assms by (simp add: can_move_def)
  have le': "unat amount \<le> unat (balanceOf t src)"
    using le by (simp only: word_le_nat_alt)
  have sub: "unat (balanceOf t src - amount) = unat (balanceOf t src) - unat amount"
    using le by (rule unat_sub)
  have "unat (balanceOf t dst) + unat amount < 2 ^ LENGTH(256)"
    using assms False by (simp add: can_move_def)
  then have add: "unat (balanceOf t dst + amount) = unat (balanceOf t dst) + unat amount"
    by (simp only: unat_add_lem [THEN iffD1])
  show ?thesis
    using False sub le' add by (simp add: move_def Let_def)
qed

lemma move_balance:
  assumes "can_move t src dst amount"
  shows "int (unat (balanceOf (move t src dst amount) a))
         = int (unat (balanceOf t a)) + flow src dst amount a"
proof -
  have "int (unat (balanceOf (move t src dst amount) a) + (if a = src then unat amount else 0))
        = int (unat (balanceOf t a) + (if a = dst then unat amount else 0))"
    by (simp only: move_balance_nat [OF assms])
  then show ?thesis
    by (cases "a = src"; cases "a = dst") (simp_all add: flow_def)
qed

lemma blocklisted_move [simp]: "blocklisted (move t src dst amount) = blocklisted t"
  by (simp add: move_def Let_def)

lemma balance_emit [simp]: "balance (emit e w) token a = balance w token a"
  by (simp add: emit_def balance_def)

lemma call_transfer_True:
  assumes "call_transfer token caller r amount w = (w', Inr True)"
  shows "int (balance w' token a) = int (balance w token a) + flow caller r amount a"
proof -
  from assms obtain t where t: "tokens w token = Some t"
    by (auto simp: call_transfer_def split: option.splits)
  from assms t have cm: "can_move t caller r amount"
    and w': "w' = w\<lparr>tokens := (tokens w)(token \<mapsto> move t caller r amount)\<rparr>"
    by (auto simp: call_transfer_def returned_def erc20_transfer_def refuse_def
        split: if_splits)
  show ?thesis
    using move_balance [OF cm, of a] t by (simp add: w' balance_def)
qed

lemma call_transferFrom_True:
  assumes "call_transferFrom token caller src r amount w = (w', Inr True)"
  shows "int (balance w' token a) = int (balance w token a) + flow src r amount a"
proof -
  from assms obtain t where t: "tokens w token = Some t"
    by (auto simp: call_transferFrom_def split: option.splits)
  from assms t have cm: "can_move t src r amount"
    and w': "\<exists>al. w' = w\<lparr>tokens := (tokens w)(token \<mapsto> (move t src r amount)\<lparr>allowance := al\<rparr>)\<rparr>"
    by (auto simp: call_transferFrom_def returned_def erc20_transferFrom_def refuse_def
        split: if_splits)
  from w' obtain al where
    "w' = w\<lparr>tokens := (tokens w)(token \<mapsto> (move t src r amount)\<lparr>allowance := al\<rparr>)\<rparr>" ..
  then show ?thesis
    using move_balance [OF cm, of a] t by (simp add: balance_def)
qed

lemma call_transfer_can_move:
  assumes "tokens w token = Some t" and "can_move t caller r amount"
  shows "call_transfer token caller r amount w
         = (w\<lparr>tokens := (tokens w)(token \<mapsto> move t caller r amount)\<rparr>, Inr True)"
  using assms by (simp add: call_transfer_def erc20_transfer_def returned_def)

lemma call_transferFrom_can_move:
  assumes "tokens w token = Some t"
    and "amount \<le> allowance t src caller"
    and "can_move t src r amount"
  shows "\<exists>t1. call_transferFrom token caller src r amount w
               = (w\<lparr>tokens := (tokens w)(token \<mapsto> t1)\<rparr>, Inr True)
             \<and> blocklisted t1 = blocklisted t
             \<and> balanceOf t1 = balanceOf (move t src r amount)"
proof -
  let ?t1 = "(move t src r amount)\<lparr>allowance :=
      (allowance t)(src := (allowance t src)(caller := allowance t src caller - amount))\<rparr>"
  have "call_transferFrom token caller src r amount w
        = (w\<lparr>tokens := (tokens w)(token \<mapsto> ?t1)\<rparr>, Inr True)"
    using assms
    by (simp add: call_transferFrom_def erc20_transferFrom_def returned_def)
  moreover have "blocklisted ?t1 = blocklisted t" by simp
  moreover have "balanceOf ?t1 = balanceOf (move t src r amount)" by simp
  ultimately show ?thesis by blast
qed

subsection \<open>The distribution loop\<close>

lemma received_Cons [simp]:
  "received (r # rs) (x # xs) a = (if r = a then unat x else 0) + received rs xs a"
  by (simp add: received_def)

lemma received_Nil [simp]: "received [] xs a = 0"
  by (simp add: received_def)

lemma received_drop:
  "i < length rs \<Longrightarrow> i < length as \<Longrightarrow>
   received (drop i rs) (drop i as) a
   = (if rs ! i = a then unat (as ! i) else 0) + received (drop (i + 1) rs) (drop (i + 1) as) a"
  by (simp add: received_def Cons_nth_drop_Suc [symmetric])

lemma distribute_from_flow:
  assumes "distribute_from c token bid rs as i w = (w', Inr u)"
    and "length rs = length as"
  shows "int (balance w' token a)
         = int (balance w token a) + int (received (drop i rs) (drop i as) a)
           - (if a = self c then int (sum_list (map unat (drop i as))) else 0)"
  using assms
proof (induction "length rs - i" arbitrary: i w)
  case 0
  then have "\<not> i < length rs" by simp
  with "0.prems" show ?case
    by (subst (asm) distribute_from.simps) (simp add: received_def)
next
  case (Suc n)
  then have lt: "i < length rs" and lt': "i < length as" by simp_all
  from Suc.prems(1) lt lt' obtain w1 where
    call: "call_transfer token (self c) (rs ! i) (as ! i) w = (w1, Inr True)"
    and rest: "distribute_from c token bid rs as (i + 1)
                 (emit (TransferIndexed bid (rs ! i) (as ! i)) w1) = (w', Inr u)"
    by (subst (asm) distribute_from.simps)
       (auto split: prod.splits sum.splits if_splits)
  have n: "n = length rs - (i + 1)" using Suc.hyps(2) by simp
  have step: "int (balance w1 token a)
              = int (balance w token a) + flow (self c) (rs ! i) (as ! i) a"
    using call by (rule call_transfer_True)
  have ih: "int (balance w' token a)
            = int (balance w1 token a) + int (received (drop (i + 1) rs) (drop (i + 1) as) a)
              - (if a = self c then int (sum_list (map unat (drop (i + 1) as))) else 0)"
    using Suc.hyps(1) [OF n rest Suc.prems(2)] by simp
  have d: "drop i as = as ! i # drop (i + 1) as"
    using lt' by (simp add: Cons_nth_drop_Suc)
  show ?case
    using step ih received_drop [OF lt lt', of a]
    by (simp add: flow_def d)
qed

lemma distribute_from_succeeds:
  assumes "tokens w token = Some t"
    and "length rs = length as"
    and "\<not> blocklisted t (self c)"
    and "\<forall>j<length rs. \<not> blocklisted t (rs ! j)"
    and "sum_list (map unat (drop i as)) \<le> unat (balanceOf t (self c))"
    and "\<forall>a. unat (balanceOf t a) + sum_list (map unat (drop i as)) < 2 ^ 256"
  shows "\<exists>w'. distribute_from c token bid rs as i w = (w', Inr ())"
  using assms
proof (induction "length rs - i" arbitrary: i w t)
  case 0
  then have "\<not> i < length rs" by simp
  then show ?case by (subst distribute_from.simps) simp
next
  case (Suc n)
  then have lt: "i < length rs" and lt': "i < length as" by simp_all
  let ?r = "rs ! i" and ?a = "as ! i"
  let ?t1 = "move t (self c) ?r ?a"
  let ?w1 = "w\<lparr>tokens := (tokens w)(token \<mapsto> ?t1)\<rparr>"
  let ?w2 = "emit (TransferIndexed bid ?r ?a) ?w1"
  have d: "drop i as = ?a # drop (i + 1) as"
    using lt' by (simp add: Cons_nth_drop_Suc)
  have le: "unat ?a \<le> unat (balanceOf t (self c))"
    using Suc.prems(5) by (simp add: d)
  have room: "unat (balanceOf t ?r) + unat ?a < 2 ^ 256"
    using Suc.prems(6) [rule_format, of ?r] by (simp add: d)
  have cm: "can_move t (self c) ?r ?a"
    using le room Suc.prems(3,4) lt by (simp add: can_move_def word_le_nat_alt)
  have call: "call_transfer token (self c) ?r ?a w = (?w1, Inr True)"
    using Suc.prems(1) cm by (rule call_transfer_can_move)
  have bal: "\<And>x. unat (balanceOf ?t1 x) + (if x = self c then unat ?a else 0)
                  = unat (balanceOf t x) + (if x = ?r then unat ?a else 0)"
    using cm by (rule move_balance_nat)
  have n: "n = length rs - (i + 1)" using Suc.hyps(2) by simp
  have tok: "tokens ?w2 token = Some ?t1" by (simp add: emit_def)
  have b3: "\<not> blocklisted ?t1 (self c)" using Suc.prems(3) by simp
  have b4: "\<forall>j<length rs. \<not> blocklisted ?t1 (rs ! j)" using Suc.prems(4) by simp
  have i5: "sum_list (map unat (drop (i + 1) as)) \<le> unat (balanceOf ?t1 (self c))"
    using bal [of "self c"] Suc.prems(5) by (simp add: d split: if_splits)
  have i6: "\<forall>x. unat (balanceOf ?t1 x) + sum_list (map unat (drop (i + 1) as)) < 2 ^ 256"
  proof
    fix x
    show "unat (balanceOf ?t1 x) + sum_list (map unat (drop (i + 1) as)) < 2 ^ 256"
      using bal [of x] Suc.prems(6) [rule_format, of x]
      by (simp add: d split: if_splits)
  qed
  have "\<exists>w'. distribute_from c token bid rs as (i + 1) ?w2 = (w', Inr ())"
    using Suc.hyps(1) [OF n tok Suc.prems(2) b3 b4 i5 i6] .
  then show ?case
    using lt lt' call by (subst distribute_from.simps) simp
qed

subsection \<open>batchSend as a whole\<close>

lemma batchSend_Inr_body:
  "batchSend c m token rs as w = (w', Inr bid) \<Longrightarrow>
   batchSend_body c m token rs as w = (w', Inr bid)"
  by (auto simp: batchSend_def transaction_def split: prod.splits sum.splits)

lemma batchSend_Inr_length:
  "batchSend c m token rs as w = (w', Inr bid) \<Longrightarrow> length rs = length as"
  by (drule batchSend_Inr_body) (auto simp: batchSend_body_def split: if_splits)

lemma batchSend_Inr_id:
  "batchSend c m token rs as w = (w', Inr bid) \<Longrightarrow> bid = batch_id m token (length rs)"
  by (drule batchSend_Inr_body)
     (auto simp: batchSend_body_def Let_def split: if_splits sum.splits prod.splits)

text \<open>
  Every account's balance in the token changes by what the batch addresses to it, less
  the total if it is the sender. This holds whoever the sender and the recipients are, the
  engine included.
\<close>

lemma batchSend_net_flow:
  assumes "batchSend c m token rs as w = (w', Inr bid)"
  shows "int (balance w' token a)
         = int (balance w token a) + int (received rs as a)
           - (if a = sender m then int (sum_list (map unat as)) else 0)"
proof -
  from assms have body: "batchSend_body c m token rs as w = (w', Inr bid)"
    by (rule batchSend_Inr_body)
  from body have len: "length rs = length as"
    by (auto simp: batchSend_body_def split: if_splits)
  from body len obtain total w1 w2 u where
    tot: "total_from rs as 0 0 = Inr total"
    and coll: "call_transferFrom token (self c) (sender m) (self c) total w = (w1, Inr True)"
    and dist: "distribute_from c token (batch_id m token (length rs)) rs as 0 w1 = (w2, Inr u)"
    and w': "w' = emit (BatchTransferIndexed (batch_id m token (length rs)) token (sender m) total
                    (of_nat (length rs))) w2"
    by (auto simp: batchSend_body_def Let_def split: if_splits sum.splits prod.splits)
  have t: "unat total = sum_list (map unat as)"
    using total_from_sum [OF tot] by simp
  have 1: "int (balance w1 token a)
           = int (balance w token a) + flow (sender m) (self c) total a"
    using coll by (rule call_transferFrom_True)
  have 2: "int (balance w2 token a)
           = int (balance w1 token a) + int (received rs as a)
             - (if a = self c then int (sum_list (map unat as)) else 0)"
    using distribute_from_flow [OF dist len, of a] by simp
  show ?thesis
    using 1 2 t by (simp add: w' flow_def)
qed

text \<open>
  The call returns: a well-formed batch from a sender with the funds and the allowance,
  with nobody blocklisted and room in every balance, is carried out, whatever its size.
\<close>

lemma batchSend_succeeds:
  assumes tok: "tokens w token = Some t"
    and len: "length rs = length as" and ne: "rs \<noteq> []"
    and valid: "\<forall>j<length as. rs ! j \<noteq> 0 \<and> as ! j \<noteq> 0"
    and allow: "sum_list (map unat as) \<le> unat (allowance t (sender m) (self c))"
    and funds: "sum_list (map unat as) \<le> unat (balanceOf t (sender m))"
    and nb: "\<not> blocklisted t (sender m)" "\<not> blocklisted t (self c)"
            "\<forall>j<length rs. \<not> blocklisted t (rs ! j)"
    and room: "\<forall>a. unat (balanceOf t a) + 2 * sum_list (map unat as) < 2 ^ 256"
  shows "\<exists>w'. batchSend c m token rs as w = (w', Inr (batch_id m token (length rs)))"
proof -
  let ?S = "sum_list (map unat as)"
  have "unat (0 :: uint256) + sum_list (map unat (drop 0 as)) < 2 ^ 256"
    using room [rule_format, of 0] by simp
  from total_from_succeeds [OF len valid this]
  obtain T where T: "total_from rs as 0 0 = Inr T" ..
  have uT: "unat T = ?S" using total_from_sum [OF T] by simp
  have al: "call_allowance token (sender m) (self c) w = Inr (allowance t (sender m) (self c))"
    using tok by (simp add: call_allowance_def)
  have enough: "\<not> allowance t (sender m) (self c) < T"
    using allow uT by (simp add: word_less_nat_alt)
  then have le: "T \<le> allowance t (sender m) (self c)" by simp
  have cm: "can_move t (sender m) (self c) T"
    using funds uT nb(1,2) room [rule_format, of "self c"]
    by (simp add: can_move_def word_le_nat_alt)
  from call_transferFrom_can_move [OF tok le cm]
  obtain t1 where coll: "call_transferFrom token (self c) (sender m) (self c) T w
                         = (w\<lparr>tokens := (tokens w)(token \<mapsto> t1)\<rparr>, Inr True)"
    and bl: "blocklisted t1 = blocklisted t"
    and b1: "balanceOf t1 = balanceOf (move t (sender m) (self c) T)"
    by blast
  let ?w1 = "w\<lparr>tokens := (tokens w)(token \<mapsto> t1)\<rparr>"
  have bal: "\<And>x. unat (balanceOf t1 x) + (if x = sender m then unat T else 0)
                  = unat (balanceOf t x) + (if x = self c then unat T else 0)"
    using move_balance_nat [OF cm] by (simp add: b1)
  have tok1: "tokens ?w1 token = Some t1" by simp
  have i5: "sum_list (map unat (drop 0 as)) \<le> unat (balanceOf t1 (self c))"
    using bal [of "self c"] funds uT by (simp split: if_splits)
  have i6: "\<forall>a. unat (balanceOf t1 a) + sum_list (map unat (drop 0 as)) < 2 ^ 256"
  proof
    fix a
    show "unat (balanceOf t1 a) + sum_list (map unat (drop 0 as)) < 2 ^ 256"
      using bal [of a] room [rule_format, of a] uT by (simp split: if_splits)
  qed
  have "\<exists>w2. distribute_from c token (batch_id m token (length rs)) rs as 0 ?w1 = (w2, Inr ())"
    using nb by (intro distribute_from_succeeds [OF tok1 len _ _ i5 i6]) (simp_all add: bl)
  then obtain w2 where
    dist: "distribute_from c token (batch_id m token (length rs)) rs as 0 ?w1 = (w2, Inr ())" ..
  have ne': "length rs \<noteq> 0" using ne by simp
  show ?thesis
    using len ne' T al enough coll dist
    by (simp add: batchSend_def transaction_def batchSend_body_def Let_def)
qed

lemma sum_received:
  assumes "length rs = length as" and "finite S" and "set rs \<subseteq> S"
  shows "(\<Sum>r\<in>S. received rs as r) = sum_list (map unat as)"
  using assms
proof (induction rs as rule: list_induct2)
  case Nil
  then show ?case by simp
next
  case (Cons r rs x xs)
  have "(\<Sum>a\<in>S. if r = a then unat x else 0) = unat x"
    using Cons.prems by (simp add: sum.delta')
  then show ?case
    using Cons by (simp add: sum.distrib)
qed

lemma received_replicate:
  "received (replicate n r) (replicate n x) a = (if r = a then n * unat x else 0)"
  by (induction n) simp_all

lemmas example_defs = alice_def bob_def carol_def mallory_def deployer_def usdc_def
  engine_address_def engine_def usdc_ledger_def world0_def call_by_def constructor_def

lemmas run_defs = batchSend_def transaction_def batchSend_body_def total_from.simps
  distribute_from.simps call_allowance_def call_transferFrom_def call_transfer_def returned_def
  erc20_transferFrom_def erc20_transfer_def refuse_def can_move_def checked_add_def
  move_def emit_def balance_def Let_def

lemma run_scenario_A:
  "batchSend engine (call_by alice) usdc [bob, carol] [1000000, 2000000] world0
   = (fst (batchSend engine (call_by alice) usdc [bob, carol] [1000000, 2000000] world0),
      Inr (batch_id (call_by alice) usdc (length [bob, carol])))"
  by (simp add: example_defs run_defs)

lemma run_scenario_A_events:
  "events (fst (batchSend engine (call_by alice) usdc [bob, carol] [1000000, 2000000] world0))
   = [TransferIndexed (batch_id (call_by alice) usdc (length [bob, carol])) bob 1000000,
      TransferIndexed (batch_id (call_by alice) usdc (length [bob, carol])) carol 2000000,
      BatchTransferIndexed (batch_id (call_by alice) usdc (length [bob, carol])) usdc alice
        3000000 2]"
  by (simp add: example_defs run_defs)

lemma run_scenario_B:
  "batchSend engine (call_by alice) usdc [bob] [1000000, 2000000] world0
   = (world0, Inl ArraysLengthMismatch)"
  by (simp add: run_defs)

lemma run_scenario_D:
  "batchSend engine (call_by alice) usdc [bob] [6000000] world0
   = (world0, Inl InsufficientAllowance)"
  by (simp add: example_defs run_defs)

lemma run_bob:
  "batchSend engine (call_by alice) usdc [bob] [1] world0
   = (fst (batchSend engine (call_by alice) usdc [bob] [1] world0),
      Inr (batch_id (call_by alice) usdc (length [bob])))"
  by (simp add: example_defs run_defs)

lemma run_carol:
  "batchSend engine (call_by alice) usdc [carol] [2] world0
   = (fst (batchSend engine (call_by alice) usdc [carol] [2] world0),
      Inr (batch_id (call_by alice) usdc (length [carol])))"
  by (simp add: example_defs run_defs)

subsection \<open>Conservation of value\<close>

text \<open>
  C1 (as amended): for every \<open>batchSend\<close> that succeeds and whose sender is not among the
  recipients, the sender's balance falls by the sum of the amounts and the balances of
  the recipients, each recipient address counted once, rise by that same sum.
\<close>

theorem batchSend_conserves:
  assumes run: "batchSend c m token recipients amounts w = (w', Inr bid)"
    and other: "sender m \<notin> set recipients"
  shows "int (balance w token (sender m)) - int (balance w' token (sender m))
           = int (sum_list (map unat amounts))
       \<and> (\<Sum>r\<in>set recipients. int (balance w' token r) - int (balance w token r))
           = int (sum_list (map unat amounts))"
proof -
  have len: "length recipients = length amounts"
    using run by (rule batchSend_Inr_length)
  have zero: "received recipients amounts (sender m) = 0"
    using other unfolding received_def
    by (auto simp: sum_list_eq_0_iff dest: set_zip_leftD)
  have s: "int (balance w token (sender m)) - int (balance w' token (sender m))
           = int (sum_list (map unat amounts))"
    using batchSend_net_flow [OF run, of "sender m"] zero by simp
  have "(\<Sum>r\<in>set recipients. int (balance w' token r) - int (balance w token r))
        = (\<Sum>r\<in>set recipients. int (received recipients amounts r))"
  proof (rule sum.cong)
    fix r assume "r \<in> set recipients"
    then have "r \<noteq> sender m" using other by auto
    then show "int (balance w' token r) - int (balance w token r)
               = int (received recipients amounts r)"
      using batchSend_net_flow [OF run, of r] by simp
  qed simp
  also have "\<dots> = int (\<Sum>r\<in>set recipients. received recipients amounts r)"
    by simp
  also have "\<dots> = int (sum_list (map unat amounts))"
    using sum_received [OF len, of "set recipients"] by simp
  finally show ?thesis using s by simp
qed

theorem batchSend_conserves_witness:
  "int (balance world0 usdc alice)
     - int (balance (fst (batchSend engine (call_by alice) usdc [bob, carol]
                            [1000000, 2000000] world0)) usdc alice) = 3000000
   \<and> (\<Sum>r\<in>{bob, carol}.
        int (balance (fst (batchSend engine (call_by alice) usdc [bob, carol]
                             [1000000, 2000000] world0)) usdc r)
        - int (balance world0 usdc r)) = 3000000"
proof -
  have other: "sender (call_by alice) \<notin> set [bob, carol]"
    by (simp add: example_defs)
  have u: "sum_list (map unat [1000000, 2000000 :: uint256]) = 3000000"
    by simp
  show ?thesis
    using batchSend_conserves [OF run_scenario_A other] u
    by (simp add: call_by_def)
qed

text \<open>
  C1 as stated fails when the sender is one of the recipients: paying 5 units to its own
  address, the sender ends with the balance it started with, not with 5 units less.
\<close>

theorem batchSend_conserves_counterexample:
  "\<not> isl (snd (batchSend engine (call_by alice) usdc [alice] [5] world0))
   \<and> int (balance world0 usdc alice)
       - int (balance (fst (batchSend engine (call_by alice) usdc [alice] [5] world0)) usdc alice)
     \<noteq> int (sum_list (map unat [5 :: uint256]))"
  by (simp add: example_defs run_defs)

subsection \<open>Atomicity\<close>

lemma returns_false_move [simp]: "returns_false (move t src dst amount) = returns_false t"
  by (simp add: move_def Let_def)

lemma refusal_move [simp]: "refusal (move t src dst amount) = refusal t"
  by (simp add: refusal_def)

lemma total_from_rejects:
  assumes "length rs = length as" and "i \<le> j" and "j < length as"
    and "rs ! j = 0 \<or> as ! j = 0"
  shows "\<exists>e. total_from rs as i t = Inl e"
  using assms
proof (induction "j - i" arbitrary: i t)
  case 0
  then have "i = j" by simp
  then show ?case
    using "0.prems" by (subst total_from.simps) (auto split: sum.splits)
next
  case (Suc n)
  then have lt: "i < length as" and n: "n = j - (i + 1)" and le: "i + 1 \<le> j" by simp_all
  have ih: "\<And>t'. \<exists>e. total_from rs as (i + 1) t' = Inl e"
    using Suc.hyps(1) [OF n Suc.prems(1) le Suc.prems(3,4)] .
  show ?case
  proof (cases "checked_add t (as ! i)")
    case (Inl e)
    then show ?thesis
      using lt by (subst total_from.simps) simp
  next
    case (Inr t')
    then show ?thesis
      using lt ih [of t'] by (subst total_from.simps) auto
  qed
qed

text \<open>What a call of \<open>transfer\<close> from the engine comes to, case by case.\<close>

lemma call_transfer_refused:
  assumes "tokens w token = Some t" and "\<not> can_move t caller r amount"
  shows "call_transfer token caller r amount w
         = (if returns_false t then (w\<lparr>tokens := (tokens w)(token \<mapsto> t)\<rparr>, Inr False)
            else (w, Inl CallReverted))"
  using assms
  by (simp add: call_transfer_def erc20_transfer_def refuse_def returned_def)

lemma call_transferFrom_refused:
  assumes "tokens w token = Some t"
    and "\<not> (amount \<le> allowance t src caller \<and> can_move t src r amount)"
  shows "call_transferFrom token caller src r amount w
         = (if returns_false t then (w\<lparr>tokens := (tokens w)(token \<mapsto> t)\<rparr>, Inr False)
            else (w, Inl CallReverted))"
  using assms
  by (simp add: call_transferFrom_def erc20_transferFrom_def refuse_def returned_def)

lemma call_transferFrom_accepted:
  assumes "tokens w token = Some t"
    and "amount \<le> allowance t src caller"
    and "can_move t src r amount"
  shows "\<exists>t1. call_transferFrom token caller src r amount w
               = (w\<lparr>tokens := (tokens w)(token \<mapsto> t1)\<rparr>, Inr True)
             \<and> blocklisted t1 = blocklisted t \<and> returns_false t1 = returns_false t"
proof -
  let ?t1 = "(move t src r amount)\<lparr>allowance :=
      (allowance t)(src := (allowance t src)(caller := allowance t src caller - amount))\<rparr>"
  have "call_transferFrom token caller src r amount w
        = (w\<lparr>tokens := (tokens w)(token \<mapsto> ?t1)\<rparr>, Inr True)"
    using assms
    by (simp add: call_transferFrom_def erc20_transferFrom_def returned_def)
  moreover have "blocklisted ?t1 = blocklisted t" by simp
  moreover have "returns_false ?t1 = returns_false t" by simp
  ultimately show ?thesis by blast
qed

lemma distribute_from_refused:
  assumes "tokens w token = Some t" and "i < length rs" and "i < length as"
    and "\<not> can_move t (self c) (rs ! i) (as ! i)"
  shows "\<exists>w'. distribute_from c token bid rs as i w = (w', Inl (refusal t))"
  using assms(2,3) call_transfer_refused [OF assms(1,4)]
  by (subst distribute_from.simps) (simp add: refusal_def)

text \<open>
  A disbursement that the token refuses ends the loop with an error: here the refusal
  is forced by a blocklisted recipient somewhere from index \<open>i\<close> on.
\<close>

lemma distribute_from_blocked:
  assumes "tokens w token = Some t"
    and "length rs = length as"
    and "i \<le> j" and "j < length rs" and "blocklisted t (rs ! j)"
  shows "\<exists>w'. distribute_from c token bid rs as i w = (w', Inl (refusal t))"
  using assms
proof (induction "j - i" arbitrary: i w t)
  case 0
  then have ij: "i = j" and lt: "i < length rs" "i < length as" by simp_all
  have "\<not> can_move t (self c) (rs ! i) (as ! i)"
    using "0.prems"(5) ij by (simp add: can_move_def)
  then show ?case
    using "0.prems"(1) lt by (intro distribute_from_refused)
next
  case (Suc n)
  then have lt: "i < length rs" "i < length as" and n: "n = j - (i + 1)"
    and le: "i + 1 \<le> j" by simp_all
  show ?case
  proof (cases "can_move t (self c) (rs ! i) (as ! i)")
    case True
    let ?t1 = "move t (self c) (rs ! i) (as ! i)"
    let ?w1 = "w\<lparr>tokens := (tokens w)(token \<mapsto> ?t1)\<rparr>"
    let ?w2 = "emit (TransferIndexed bid (rs ! i) (as ! i)) ?w1"
    have call: "call_transfer token (self c) (rs ! i) (as ! i) w = (?w1, Inr True)"
      using Suc.prems(1) True
      by (simp add: call_transfer_def erc20_transfer_def returned_def)
    have tok: "tokens ?w2 token = Some ?t1" by (simp add: emit_def)
    have bl: "blocklisted ?t1 (rs ! j)"
      using Suc.prems(5) by (simp add: move_def Let_def)
    have "\<exists>w'. distribute_from c token bid rs as (i + 1) ?w2 = (w', Inl (refusal ?t1))"
      using Suc.hyps(1) [OF n tok Suc.prems(2) le Suc.prems(4) bl] .
    then show ?thesis
      using lt call by (subst distribute_from.simps) simp
  next
    case False
    then show ?thesis
      using Suc.prems(1) lt by (intro distribute_from_refused)
  qed
qed

lemma transaction_Inl:
  "snd (body w) = Inl e \<Longrightarrow> transaction body w = (w, Inl e)"
  by (cases "body w") (simp add: transaction_def)

text \<open>
  C2: each way \<open>batchSend\<close> can fail ends the call with an error and leaves the chain,
  every balance of every token in it, as it was before the call:
  \<^item> arrays of different lengths, an empty batch, a zero recipient or a zero amount;
  \<^item> an allowance below the total;
  \<^item> a collecting \<open>transferFrom\<close> that the token refuses, by answering \<open>false\<close> or by
    reverting;
  \<^item> a disbursement that fails after the collection went through, in particular one to a
    recipient that the token blocklists;
  and no call that ends with an error changes the chain.
\<close>

theorem batchSend_atomic:
  "(length recipients \<noteq> length amounts \<longrightarrow>
      batchSend c m token recipients amounts w = (w, Inl ArraysLengthMismatch))
   \<and> (batchSend c m token [] [] w = (w, Inl ZeroAmount))
   \<and> (length recipients = length amounts \<and> j < length amounts
        \<and> (recipients ! j = 0 \<or> amounts ! j = 0) \<longrightarrow>
        (\<exists>e. batchSend c m token recipients amounts w = (w, Inl e)))
   \<and> (length recipients = length amounts \<and> recipients \<noteq> []
        \<and> total_from recipients amounts 0 0 = Inr T \<and> tokens w token = Some t \<longrightarrow>
        (allowance t (sender m) (self c) < T \<longrightarrow>
           batchSend c m token recipients amounts w = (w, Inl InsufficientAllowance))
        \<and> (T \<le> allowance t (sender m) (self c) \<and> \<not> can_move t (sender m) (self c) T \<longrightarrow>
           batchSend c m token recipients amounts w = (w, Inl (refusal t)))
        \<and> (T \<le> allowance t (sender m) (self c) \<and> k < length recipients
             \<and> blocklisted t (recipients ! k) \<longrightarrow>
           batchSend c m token recipients amounts w = (w, Inl (refusal t)))
        \<and> (call_transferFrom token (self c) (sender m) (self c) T w = (w1, Inr True)
             \<and> distribute_from c token (batch_id m token (length recipients)) recipients amounts
                  0 w1 = (w2, Inl e') \<longrightarrow>
           batchSend c m token recipients amounts w = (w, Inl e')))
   \<and> (snd (batchSend c m token recipients amounts w) = Inl e \<longrightarrow>
        fst (batchSend c m token recipients amounts w) = w)"
proof (intro conjI impI)
  assume "length recipients \<noteq> length amounts"
  then show "batchSend c m token recipients amounts w = (w, Inl ArraysLengthMismatch)"
    by (simp add: batchSend_def transaction_def batchSend_body_def)
next
  show "batchSend c m token [] [] w = (w, Inl ZeroAmount)"
    by (simp add: batchSend_def transaction_def batchSend_body_def)
next
  assume a: "length recipients = length amounts \<and> j < length amounts
             \<and> (recipients ! j = 0 \<or> amounts ! j = 0)"
  then have "\<exists>e. total_from recipients amounts 0 0 = Inl e"
    by (intro total_from_rejects [of recipients amounts 0 j]) simp_all
  then obtain e where "total_from recipients amounts 0 0 = Inl e" ..
  moreover have "amounts \<noteq> []" using a by auto
  ultimately have "snd (batchSend_body c m token recipients amounts w) = Inl e"
    using a by (simp add: batchSend_body_def)
  then have "batchSend c m token recipients amounts w = (w, Inl e)"
    unfolding batchSend_def by (rule transaction_Inl)
  then show "\<exists>e. batchSend c m token recipients amounts w = (w, Inl e)" ..
next
  assume a: "length recipients = length amounts \<and> recipients \<noteq> []
             \<and> total_from recipients amounts 0 0 = Inr T \<and> tokens w token = Some t"
  assume low: "allowance t (sender m) (self c) < T"
  have ne: "amounts \<noteq> []" using a by auto
  have "snd (batchSend_body c m token recipients amounts w) = Inl InsufficientAllowance"
    using a ne low by (simp add: batchSend_body_def call_allowance_def Let_def)
  then show "batchSend c m token recipients amounts w = (w, Inl InsufficientAllowance)"
    unfolding batchSend_def by (rule transaction_Inl)
next
  assume a: "length recipients = length amounts \<and> recipients \<noteq> []
             \<and> total_from recipients amounts 0 0 = Inr T \<and> tokens w token = Some t"
  assume b: "T \<le> allowance t (sender m) (self c) \<and> \<not> can_move t (sender m) (self c) T"
  have tok: "tokens w token = Some t" using a by simp
  have ne: "amounts \<noteq> []" using a by auto
  have high: "\<not> allowance t (sender m) (self c) < T" using b by (auto simp: not_less)
  have "\<not> (T \<le> allowance t (sender m) (self c) \<and> can_move t (sender m) (self c) T)"
    using b by simp
  from call_transferFrom_refused [OF tok this]
  have "snd (batchSend_body c m token recipients amounts w) = Inl (refusal t)"
    using a ne high
    by (simp add: batchSend_body_def call_allowance_def Let_def refusal_def)
  then show "batchSend c m token recipients amounts w = (w, Inl (refusal t))"
    unfolding batchSend_def by (rule transaction_Inl)
next
  assume a: "length recipients = length amounts \<and> recipients \<noteq> []
             \<and> total_from recipients amounts 0 0 = Inr T \<and> tokens w token = Some t"
  assume b: "T \<le> allowance t (sender m) (self c) \<and> k < length recipients
             \<and> blocklisted t (recipients ! k)"
  have tok: "tokens w token = Some t" and len: "length recipients = length amounts"
    using a by simp_all
  have ne: "amounts \<noteq> []" using a by auto
  have high: "\<not> allowance t (sender m) (self c) < T" using b by (auto simp: not_less)
  have "snd (batchSend_body c m token recipients amounts w) = Inl (refusal t)"
  proof (cases "can_move t (sender m) (self c) T")
    case False
    then have "\<not> (T \<le> allowance t (sender m) (self c) \<and> can_move t (sender m) (self c) T)"
      by simp
    from call_transferFrom_refused [OF tok this]
    show ?thesis
      using a ne high
      by (simp add: batchSend_body_def call_allowance_def Let_def refusal_def)
  next
    case True
    have "T \<le> allowance t (sender m) (self c)" using b by simp
    from call_transferFrom_accepted [OF tok this True]
    obtain t1 where coll: "call_transferFrom token (self c) (sender m) (self c) T w
                           = (w\<lparr>tokens := (tokens w)(token \<mapsto> t1)\<rparr>, Inr True)"
      and bl: "blocklisted t1 = blocklisted t"
      and rf: "returns_false t1 = returns_false t"
      by blast
    let ?w1 = "w\<lparr>tokens := (tokens w)(token \<mapsto> t1)\<rparr>"
    have tok1: "tokens ?w1 token = Some t1" by simp
    have blk: "blocklisted t1 (recipients ! k)" using b bl by simp
    from distribute_from_blocked [OF tok1 len _ _ blk, of 0 c "batch_id m token (length recipients)"] b
    obtain w2 where "distribute_from c token (batch_id m token (length recipients)) recipients
                       amounts 0 ?w1 = (w2, Inl (refusal t1))"
      by auto
    moreover have "refusal t1 = refusal t" using rf by (simp add: refusal_def)
    ultimately show ?thesis
      using a ne high coll
      by (simp add: batchSend_body_def call_allowance_def Let_def)
  qed
  then show "batchSend c m token recipients amounts w = (w, Inl (refusal t))"
    unfolding batchSend_def by (rule transaction_Inl)
next
  assume a: "length recipients = length amounts \<and> recipients \<noteq> []
             \<and> total_from recipients amounts 0 0 = Inr T \<and> tokens w token = Some t"
  assume b: "call_transferFrom token (self c) (sender m) (self c) T w = (w1, Inr True)
             \<and> distribute_from c token (batch_id m token (length recipients)) recipients amounts
                  0 w1 = (w2, Inl e')"
  have tok: "tokens w token = Some t" using a by simp
  have "T \<le> allowance t (sender m) (self c)"
  proof (rule ccontr)
    assume "\<not> T \<le> allowance t (sender m) (self c)"
    then have "\<not> (T \<le> allowance t (sender m) (self c) \<and> can_move t (sender m) (self c) T)"
      by simp
    from call_transferFrom_refused [OF tok this] b show False
      by (simp split: if_splits)
  qed
  then have "\<not> allowance t (sender m) (self c) < T" by (simp add: not_less)
  moreover have "amounts \<noteq> []" using a by auto
  ultimately have "snd (batchSend_body c m token recipients amounts w) = Inl e'"
    using a b by (simp add: batchSend_body_def call_allowance_def Let_def)
  then show "batchSend c m token recipients amounts w = (w, Inl e')"
    unfolding batchSend_def by (rule transaction_Inl)
next
  assume "snd (batchSend c m token recipients amounts w) = Inl e"
  then show "fst (batchSend c m token recipients amounts w) = w"
    by (cases "batchSend_body c m token recipients amounts w")
       (auto simp: batchSend_def transaction_def split: sum.splits)
qed

theorem batchSend_atomic_witness:
  "batchSend engine (call_by alice) usdc [bob] [1000000, 2000000] world0
     = (world0, Inl ArraysLengthMismatch)
   \<and> (\<exists>e. batchSend engine (call_by alice) usdc [bob] [0] world0 = (world0, Inl e))
   \<and> batchSend engine (call_by alice) usdc [bob] [6000000] world0
     = (world0, Inl InsufficientAllowance)
   \<and> batchSend engine (call_by dave) usdc [bob] [100] world1 = (world1, Inl TransferFailed)
   \<and> batchSend engine (call_by alice) usdc [bob, mallory] [1000000, 2000000] world0
     = (world0, Inl TransferFailed)
   \<and> balance (fst (batchSend_body engine (call_by alice) usdc [bob, mallory]
                      [1000000, 2000000] world0)) usdc bob = 1000000
   \<and> balance world0 usdc bob = 0"
proof -
  let ?ledger1 = "usdc_ledger
        \<lparr>allowance := (allowance usdc_ledger)(dave := (\<lambda>b. 0)(engine_address := 1000))\<rparr>"
  have tok0: "tokens world0 usdc = Some usdc_ledger"
    by (simp add: world0_def)
  have tok1: "tokens world1 usdc = Some ?ledger1"
    by (simp add: world1_def)
  have rf: "refusal usdc_ledger = TransferFailed" "refusal ?ledger1 = TransferFailed"
    by (simp_all add: refusal_def usdc_ledger_def)
  have 1: "batchSend engine (call_by alice) usdc [bob] [1000000, 2000000] world0
           = (world0, Inl ArraysLengthMismatch)"
    using batchSend_atomic [where recipients = "[bob]" and amounts = "[1000000, 2000000]"
        and c = engine and m = "call_by alice" and token = usdc and w = world0]
    by simp
  have 2: "\<exists>e. batchSend engine (call_by alice) usdc [bob] [0] world0 = (world0, Inl e)"
    using batchSend_atomic [where recipients = "[bob]" and amounts = "[0]" and j = 0
        and c = engine and m = "call_by alice" and token = usdc and w = world0]
    by simp
  have t3: "total_from [bob] [6000000] 0 0 = Inr 6000000"
    by (simp add: total_from.simps checked_add_def bob_def)
  have low: "allowance usdc_ledger (sender (call_by alice)) (self engine) < 6000000"
    by (simp add: example_defs)
  have 3: "batchSend engine (call_by alice) usdc [bob] [6000000] world0
           = (world0, Inl InsufficientAllowance)"
    using batchSend_atomic [where recipients = "[bob]" and amounts = "[6000000]"
        and T = 6000000 and t = usdc_ledger
        and c = engine and m = "call_by alice" and token = usdc and w = world0]
      t3 tok0 low
    by simp
  have t4: "total_from [bob] [100] 0 0 = Inr 100"
    by (simp add: total_from.simps checked_add_def bob_def)
  have ok4: "100 \<le> allowance ?ledger1 (sender (call_by dave)) (self engine)"
    by (simp add: example_defs dave_def)
  have no4: "\<not> can_move ?ledger1 (sender (call_by dave)) (self engine) 100"
    by (simp add: example_defs dave_def can_move_def)
  have 4: "batchSend engine (call_by dave) usdc [bob] [100] world1
           = (world1, Inl TransferFailed)"
    using batchSend_atomic [where recipients = "[bob]" and amounts = "[100]"
        and T = 100 and t = ?ledger1
        and c = engine and m = "call_by dave" and token = usdc and w = world1]
      t4 tok1 ok4 no4 rf(2)
    by simp
  have t5: "total_from [bob, mallory] [1000000, 2000000] 0 0 = Inr 3000000"
    by (simp add: total_from.simps checked_add_def bob_def mallory_def)
  have ok5: "3000000 \<le> allowance usdc_ledger (sender (call_by alice)) (self engine)"
    by (simp add: example_defs)
  have bl5: "blocklisted usdc_ledger ([bob, mallory] ! 1)"
    by (simp add: usdc_ledger_def)
  have 5: "batchSend engine (call_by alice) usdc [bob, mallory] [1000000, 2000000] world0
           = (world0, Inl TransferFailed)"
    using batchSend_atomic [where recipients = "[bob, mallory]"
        and amounts = "[1000000, 2000000]" and T = 3000000 and t = usdc_ledger and k = 1
        and c = engine and m = "call_by alice" and token = usdc and w = world0]
      t5 tok0 ok5 bl5 rf(1)
    by simp
  have partial: "balance (fst (batchSend_body engine (call_by alice) usdc [bob, mallory]
                      [1000000, 2000000] world0)) usdc bob = 1000000"
    by (simp add: example_defs run_defs)
  have before: "balance world0 usdc bob = 0"
    by (simp add: example_defs balance_def)
  show ?thesis
    using 1 2 3 4 5 partial before by simp
qed

subsection \<open>The batch-size limit\<close>

text \<open>
  C3, the code at the failing input: 201 well-formed transfers of one unit are not
  rejected by \<open>batchSend\<close>. The call returns the batch identifier and the recipient
  holds 201 units more.
\<close>

theorem batchSend_accepts_201:
  "snd (batchSend engine (call_by alice) usdc (replicate 201 bob) (replicate 201 1) world0)
     = Inr (batch_id (call_by alice) usdc 201)
   \<and> balance (fst (batchSend engine (call_by alice) usdc (replicate 201 bob)
                      (replicate 201 1) world0)) usdc bob = 201
   \<and> balance world0 usdc bob = 0"
proof -
  let ?rs = "replicate 201 bob" and ?as = "replicate 201 (1 :: uint256)"
  have tok: "tokens world0 usdc = Some usdc_ledger"
    by (simp add: world0_def)
  have s: "sum_list (map unat ?as) = 201"
    by (simp add: sum_list_replicate)
  have "\<exists>w'. batchSend engine (call_by alice) usdc ?rs ?as world0
             = (w', Inr (batch_id (call_by alice) usdc (length ?rs)))"
  proof (rule batchSend_succeeds [OF tok])
    show "\<forall>a. unat (balanceOf usdc_ledger a) + 2 * sum_list (map unat ?as) < 2 ^ 256"
      unfolding s by (simp add: example_defs)
    show "sum_list (map unat ?as)
          \<le> unat (allowance usdc_ledger (sender (call_by alice)) (self engine))"
      unfolding s by (simp add: example_defs)
    show "sum_list (map unat ?as) \<le> unat (balanceOf usdc_ledger (sender (call_by alice)))"
      unfolding s by (simp add: example_defs)
  qed (simp_all add: example_defs)
  then obtain w' where
    run: "batchSend engine (call_by alice) usdc ?rs ?as world0
          = (w', Inr (batch_id (call_by alice) usdc 201))"
    by auto
  have "int (balance w' usdc bob) = int (balance world0 usdc bob) + 201"
    using batchSend_net_flow [OF run, of bob]
    by (simp add: received_replicate) (simp add: example_defs)
  moreover have "balance world0 usdc bob = 0"
    by (simp add: example_defs balance_def)
  ultimately show ?thesis
    using run by simp
qed

subsection \<open>Authorization gate\<close>

text \<open>
  The owner check and the regular case: on an engine deployed by \<open>d\<close> at address \<open>at\<close>,
  \<open>emergencyWithdraw\<close> called by anybody else fails with \<open>NotOwner\<close> and leaves the chain
  as it was; called by \<open>d\<close>, when the token can make the transfer, it returns and exactly
  \<open>amount\<close> has moved from the engine's balance to \<open>d\<close>'s, no other balance changing.
\<close>

lemma emergencyWithdraw_gate:
  "(sender m \<noteq> d \<longrightarrow>
      emergencyWithdraw (constructor d at) m token amount w = (w, Inl NotOwner))
   \<and> (sender m = d \<and> d \<noteq> at \<and> tokens w token = Some t \<and> can_move t at d amount \<longrightarrow>
        (\<exists>w'. emergencyWithdraw (constructor d at) m token amount w = (w', Inr ())
           \<and> balance w' token at + unat amount = balance w token at
           \<and> balance w' token d = balance w token d + unat amount
           \<and> (\<forall>a. a \<noteq> at \<and> a \<noteq> d \<longrightarrow> balance w' token a = balance w token a)))"
proof (intro conjI impI)
  assume "sender m \<noteq> d"
  then show "emergencyWithdraw (constructor d at) m token amount w = (w, Inl NotOwner)"
    by (simp add: emergencyWithdraw_def transaction_def emergencyWithdraw_body_def
        constructor_def)
next
  assume a: "sender m = d \<and> d \<noteq> at \<and> tokens w token = Some t \<and> can_move t at d amount"
  then have own: "sender m = d" and ne: "d \<noteq> at" and tok: "tokens w token = Some t"
    and cm: "can_move t at d amount" by simp_all
  let ?w' = "w\<lparr>tokens := (tokens w)(token \<mapsto> move t at d amount)\<rparr>"
  have call: "call_transfer token at d amount w = (?w', Inr True)"
    using tok cm by (rule call_transfer_can_move)
  have run: "emergencyWithdraw (constructor d at) m token amount w = (?w', Inr ())"
    using own call
    by (simp add: emergencyWithdraw_def transaction_def emergencyWithdraw_body_def
        constructor_def)
  have bal: "\<And>a. balance ?w' token a + (if a = at then unat amount else 0)
                  = balance w token a + (if a = d then unat amount else 0)"
    using move_balance_nat [OF cm] tok by (simp add: balance_def)
  have "balance ?w' token at + unat amount = balance w token at"
    using bal [of at] ne by simp
  moreover have "balance ?w' token d = balance w token d + unat amount"
    using bal [of d] ne by simp
  moreover have "\<forall>a. a \<noteq> at \<and> a \<noteq> d \<longrightarrow> balance ?w' token a = balance w token a"
  proof (intro allI impI)
    fix a assume "a \<noteq> at \<and> a \<noteq> d"
    then show "balance ?w' token a = balance w token a"
      using bal [of a] by simp
  qed
  ultimately show "\<exists>w'. emergencyWithdraw (constructor d at) m token amount w = (w', Inr ())
           \<and> balance w' token at + unat amount = balance w token at
           \<and> balance w' token d = balance w token d + unat amount
           \<and> (\<forall>a. a \<noteq> at \<and> a \<noteq> d \<longrightarrow> balance w' token a = balance w token a)"
    using run by blast
qed

lemma emergencyWithdraw_gate_example:
  "emergencyWithdraw engine (call_by alice) usdc 200 world0 = (world0, Inl NotOwner)
   \<and> (\<exists>w'. emergencyWithdraw engine (call_by deployer) usdc 200 world0 = (w', Inr ())
         \<and> balance w' usdc engine_address = 300
         \<and> balance w' usdc deployer = 200
         \<and> balance w' usdc alice = 10000000)"
proof -
  have no: "sender (call_by alice) \<noteq> deployer"
    by (simp add: example_defs)
  have yes: "sender (call_by deployer) = deployer \<and> deployer \<noteq> engine_address
             \<and> tokens world0 usdc = Some usdc_ledger
             \<and> can_move usdc_ledger engine_address deployer 200"
    by (simp add: example_defs can_move_def)
  have b: "balance world0 usdc engine_address = 500" "balance world0 usdc deployer = 0"
    "balance world0 usdc alice = 10000000"
    by (simp_all add: example_defs balance_def)
  have a: "alice \<noteq> engine_address \<and> alice \<noteq> deployer"
    by (simp add: example_defs)
  have 1: "emergencyWithdraw engine (call_by alice) usdc 200 world0 = (world0, Inl NotOwner)"
    using emergencyWithdraw_gate [where m = "call_by alice" and d = deployer
        and at = engine_address and token = usdc and amount = 200 and w = world0]
      no by (simp add: engine_def)
  obtain w' where
    "emergencyWithdraw engine (call_by deployer) usdc 200 world0 = (w', Inr ())"
    "balance w' usdc engine_address + unat (200 :: uint256) = balance world0 usdc engine_address"
    "balance w' usdc deployer = balance world0 usdc deployer + unat (200 :: uint256)"
    "\<forall>a. a \<noteq> engine_address \<and> a \<noteq> deployer \<longrightarrow> balance w' usdc a = balance world0 usdc a"
    using emergencyWithdraw_gate [where m = "call_by deployer" and d = deployer
        and at = engine_address and token = usdc and amount = 200 and w = world0
        and t = usdc_ledger] yes
    unfolding engine_def by blast
  then have "emergencyWithdraw engine (call_by deployer) usdc 200 world0 = (w', Inr ())
         \<and> balance w' usdc engine_address = 300
         \<and> balance w' usdc deployer = 200
         \<and> balance w' usdc alice = 10000000"
    using b a by simp
  then show ?thesis using 1 by blast
qed

text \<open>
  C8, the code at the failing input: the owner asks for 600 units while the engine holds
  500, on a token that answers \<open>false\<close> to a transfer it refuses. \<open>emergencyWithdraw\<close>
  returns normally, and nothing has moved.
\<close>

theorem emergencyWithdraw_ignores_refusal:
  "emergencyWithdraw engine (call_by deployer) usdc 600 world0 = (world0, Inr ())
   \<and> balance world0 usdc engine_address = 500
   \<and> balance world0 usdc deployer = 0"
  by (simp add: example_defs emergencyWithdraw_def transaction_def emergencyWithdraw_body_def
      call_transfer_def erc20_transfer_def refuse_def returned_def can_move_def balance_def)

subsection \<open>Batch identifier\<close>

text \<open>
  C9: two executions of \<open>batchSend\<close> that succeed with the same sender, block timestamp,
  block number, token and number of recipients return the same batch identifier,
  whatever their recipients and amounts (and whatever the chain state).
\<close>

theorem batchId_same_context:
  assumes "batchSend c m token recipients amounts w = (w1, Inr bid)"
    and "batchSend c' m' token recipients' amounts' w' = (w1', Inr bid')"
    and "sender m = sender m'" and "timestamp m = timestamp m'" and "number m = number m'"
    and "length recipients = length recipients'"
  shows "bid = bid'"
  using batchSend_Inr_id [OF assms(1)] batchSend_Inr_id [OF assms(2)] assms(3-)
  by (simp add: batch_id_def)

theorem batchId_same_context_witness:
  "fst (batchSend engine (call_by alice) usdc [bob] [1] world0)
     \<noteq> fst (batchSend engine (call_by alice) usdc [carol] [2] world0)
   \<and> \<not> isl (snd (batchSend engine (call_by alice) usdc [bob] [1] world0))
   \<and> snd (batchSend engine (call_by alice) usdc [bob] [1] world0)
     = snd (batchSend engine (call_by alice) usdc [carol] [2] world0)"
proof -
  have id: "batch_id (call_by alice) usdc (length [bob])
            = batch_id (call_by alice) usdc (length [carol])"
    using batchId_same_context [OF run_bob run_carol] by simp
  have b1: "balance (fst (batchSend engine (call_by alice) usdc [bob] [1] world0)) usdc bob = 1"
    by (simp add: example_defs run_defs)
  have b2: "balance (fst (batchSend engine (call_by alice) usdc [carol] [2] world0)) usdc bob = 0"
    by (simp add: example_defs run_defs)
  have ne: "fst (batchSend engine (call_by alice) usdc [bob] [1] world0)
     \<noteq> fst (batchSend engine (call_by alice) usdc [carol] [2] world0)"
    using b1 b2 by auto
  have s1: "snd (batchSend engine (call_by alice) usdc [bob] [1] world0)
            = Inr (batch_id (call_by alice) usdc (length [bob]))"
    by (subst run_bob) simp
  have s2: "snd (batchSend engine (call_by alice) usdc [carol] [2] world0)
            = Inr (batch_id (call_by alice) usdc (length [carol]))"
    by (subst run_carol) simp
  show ?thesis
    using ne s1 s2 id by simp
qed

subsection \<open>Evaluating keccak256\<close>

text \<open>
  The steps of a round written out on a state of 25 lanes, so that a round on numerals is
  evaluated by rewriting alone.
\<close>

lemma upt_5: "[0..<5] = [0, 1, 2, 3, 4]"
  by code_simp

lemma upt_25:
  "[0..<25] = [0, 1, 2, 3, 4, 5, 6, 7, 8, 9, 10, 11, 12, 13, 14, 15, 16, 17, 18, 19, 20, 21, 22,
     23, 24]"
  by code_simp

lemma column_parity_unrolled:
  "column_parity [a0, a1, a2, a3, a4, a5, a6, a7, a8, a9, a10, a11, a12, a13, a14, a15, a16, a17, a18, a19, a20, a21, a22, a23, a24]
   = [a0 XOR a5 XOR a10 XOR a15 XOR a20,
     a1 XOR a6 XOR a11 XOR a16 XOR a21,
     a2 XOR a7 XOR a12 XOR a17 XOR a22,
     a3 XOR a8 XOR a13 XOR a18 XOR a23,
     a4 XOR a9 XOR a14 XOR a19 XOR a24]"
  by (simp add: column_parity_def upt_5)

lemma theta_effect_unrolled:
  "theta_effect [c0, c1, c2, c3, c4]
   = [c4 XOR rol c1 1, c0 XOR rol c2 1, c1 XOR rol c3 1, c2 XOR rol c4 1, c3 XOR rol c0 1]"
  by (simp add: theta_effect_def upt_5)

lemma theta_apply_unrolled:
  "theta_apply [a0, a1, a2, a3, a4, a5, a6, a7, a8, a9, a10, a11, a12, a13, a14, a15, a16, a17, a18, a19, a20, a21, a22, a23, a24] [d0, d1, d2, d3, d4]
   = [a0 XOR d0, a1 XOR d1, a2 XOR d2, a3 XOR d3, a4 XOR d4,
     a5 XOR d0, a6 XOR d1, a7 XOR d2, a8 XOR d3, a9 XOR d4,
     a10 XOR d0, a11 XOR d1, a12 XOR d2, a13 XOR d3, a14 XOR d4,
     a15 XOR d0, a16 XOR d1, a17 XOR d2, a18 XOR d3, a19 XOR d4,
     a20 XOR d0, a21 XOR d1, a22 XOR d2, a23 XOR d3, a24 XOR d4]"
  by (simp add: theta_apply_def upt_25)

lemma rho_pi_unrolled:
  "rho_pi [a0, a1, a2, a3, a4, a5, a6, a7, a8, a9, a10, a11, a12, a13, a14, a15, a16, a17, a18, a19, a20, a21, a22, a23, a24]
   = [rol a0 0, rol a6 44, rol a12 43, rol a18 21, rol a24 14,
     rol a3 28, rol a9 20, rol a10 3, rol a16 45, rol a22 61,
     rol a1 1, rol a7 6, rol a13 25, rol a19 8, rol a20 18,
     rol a4 27, rol a5 36, rol a11 10, rol a17 15, rol a23 56,
     rol a2 62, rol a8 55, rol a14 39, rol a15 41, rol a21 2]"
  by (simp add: rho_pi_def upt_25 rotation_offsets_def Let_def)

lemma chi_unrolled:
  "chi [a0, a1, a2, a3, a4, a5, a6, a7, a8, a9, a10, a11, a12, a13, a14, a15, a16, a17, a18, a19, a20, a21, a22, a23, a24]
   = [a0 XOR (NOT a1 AND a2),
     a1 XOR (NOT a2 AND a3),
     a2 XOR (NOT a3 AND a4),
     a3 XOR (NOT a4 AND a0),
     a4 XOR (NOT a0 AND a1),
     a5 XOR (NOT a6 AND a7),
     a6 XOR (NOT a7 AND a8),
     a7 XOR (NOT a8 AND a9),
     a8 XOR (NOT a9 AND a5),
     a9 XOR (NOT a5 AND a6),
     a10 XOR (NOT a11 AND a12),
     a11 XOR (NOT a12 AND a13),
     a12 XOR (NOT a13 AND a14),
     a13 XOR (NOT a14 AND a10),
     a14 XOR (NOT a10 AND a11),
     a15 XOR (NOT a16 AND a17),
     a16 XOR (NOT a17 AND a18),
     a17 XOR (NOT a18 AND a19),
     a18 XOR (NOT a19 AND a15),
     a19 XOR (NOT a15 AND a16),
     a20 XOR (NOT a21 AND a22),
     a21 XOR (NOT a22 AND a23),
     a22 XOR (NOT a23 AND a24),
     a23 XOR (NOT a24 AND a20),
     a24 XOR (NOT a20 AND a21)]"
  by (simp add: chi_def upt_25)

lemma iota_unrolled:
  "iota rc [a0, a1, a2, a3, a4, a5, a6, a7, a8, a9, a10, a11, a12, a13, a14, a15, a16, a17, a18, a19, a20, a21, a22, a23, a24]
   = [a0 XOR rc, a1, a2, a3, a4, a5, a6, a7,
     a8, a9, a10, a11, a12, a13, a14, a15,
     a16, a17, a18, a19, a20, a21, a22, a23,
     a24]"
  by (simp add: iota_def)

text \<open>A rotation is the low part of the shifted value joined with what was shifted out.\<close>

lemma rol_unat:
  assumes "n \<le> 64"
  shows "rol w n = of_nat ((unat w * 2 ^ n) mod 2 ^ 64 + unat w div 2 ^ (64 - n))"
proof -
  let ?a = "push_bit n w" and ?b = "drop_bit (64 - n) w"
  have disj: "?a AND ?b = 0"
  proof (rule bit_word_eqI)
    fix i assume "i < LENGTH(64)"
    then show "bit (?a AND ?b) i \<longleftrightarrow> bit (0 :: lane) i"
      using assms by (auto simp: bit_simps dest: bit_imp_le_length)
  qed
  have "rol w n = ?a + ?b"
    unfolding rol_def using disj by (simp add: disjunctive_add_eq_or)
  also have "\<dots> = of_nat (unat ?a + unat ?b)"
    by simp
  also have "unat ?a = (unat w * 2 ^ n) mod 2 ^ 64"
    by (subst unsigned_push_bit_eq) (simp add: push_bit_eq_mult take_bit_eq_mod)
  also have "unat ?b = unat w div 2 ^ (64 - n)"
    by (subst unat_drop_bit_eq) (simp add: drop_bit_eq_div)
  finally show ?thesis .
qed

lemma unat_lane_numeral: "unat (numeral k :: lane) = numeral k mod 2 ^ 64"
proof -
  have "LENGTH(64) = 64" by simp
  then show ?thesis
    using unat_of_nat [where 'a = 64, of "numeral k"] by (simp only: of_nat_numeral)
qed

lemma rol_numeral:
  assumes "n + q = 64" and "p = 2 ^ n"
  shows "rol (numeral k) n
         = of_nat (((numeral k * p) AND 18446744073709551615)
                   OR drop_bit q (numeral k AND 18446744073709551615))"
proof -
  have n: "n \<le> 64" and q: "64 - n = q" using assms by simp_all
  have m: "(18446744073709551615 :: nat) = mask 64"
    by (simp add: mask_eq_exp_minus_1)
  let ?x = "numeral k :: nat"
  let ?lo = "(?x * 2 ^ n) AND mask 64" and ?hi = "drop_bit q (?x AND mask 64)"
  have u: "unat (numeral k :: lane) = ?x AND mask 64"
    by (simp only: unat_lane_numeral take_bit_eq_mod [symmetric] take_bit_eq_mask)
  have lo: "(unat (numeral k :: lane) * 2 ^ n) mod 2 ^ 64 = ?lo"
  proof -
    have "(unat (numeral k :: lane) * 2 ^ n) mod 2 ^ 64 = (?x mod 2 ^ 64 * 2 ^ n) mod 2 ^ 64"
      by (simp only: unat_lane_numeral)
    also have "\<dots> = (?x * 2 ^ n) mod 2 ^ 64"
      by (rule mod_mult_left_eq)
    finally show ?thesis
      by (simp only: take_bit_eq_mod [symmetric] take_bit_eq_mask)
  qed
  have hi: "unat (numeral k :: lane) div 2 ^ (64 - n) = ?hi"
    by (simp only: u q drop_bit_eq_div)
  have disj: "?lo AND ?hi = 0"
  proof (rule bit_eqI)
    fix i
    show "bit (?lo AND ?hi) i \<longleftrightarrow> bit (0 :: nat) i"
      using assms(1) by (auto simp: bit_simps push_bit_eq_mult [symmetric])
  qed
  have "rol (numeral k) n = of_nat (?lo + ?hi)"
    using rol_unat [OF n, of "numeral k"] by (simp only: lo hi)
  also have "?lo + ?hi = ?lo OR ?hi"
    using disj by (rule disjunctive_add_eq_or)
  finally show ?thesis
    by (simp only: assms(2) m)
qed

lemma rol_eval:
  "rol (numeral k) 1 = of_nat (((numeral k * 2) AND 18446744073709551615)
      OR drop_bit 63 (numeral k AND 18446744073709551615))"
  "rol (numeral k) 2 = of_nat (((numeral k * 4) AND 18446744073709551615)
      OR drop_bit 62 (numeral k AND 18446744073709551615))"
  "rol (numeral k) 3 = of_nat (((numeral k * 8) AND 18446744073709551615)
      OR drop_bit 61 (numeral k AND 18446744073709551615))"
  "rol (numeral k) 6 = of_nat (((numeral k * 64) AND 18446744073709551615)
      OR drop_bit 58 (numeral k AND 18446744073709551615))"
  "rol (numeral k) 8 = of_nat (((numeral k * 256) AND 18446744073709551615)
      OR drop_bit 56 (numeral k AND 18446744073709551615))"
  "rol (numeral k) 10 = of_nat (((numeral k * 1024) AND 18446744073709551615)
      OR drop_bit 54 (numeral k AND 18446744073709551615))"
  "rol (numeral k) 14 = of_nat (((numeral k * 16384) AND 18446744073709551615)
      OR drop_bit 50 (numeral k AND 18446744073709551615))"
  "rol (numeral k) 15 = of_nat (((numeral k * 32768) AND 18446744073709551615)
      OR drop_bit 49 (numeral k AND 18446744073709551615))"
  "rol (numeral k) 18 = of_nat (((numeral k * 262144) AND 18446744073709551615)
      OR drop_bit 46 (numeral k AND 18446744073709551615))"
  "rol (numeral k) 20 = of_nat (((numeral k * 1048576) AND 18446744073709551615)
      OR drop_bit 44 (numeral k AND 18446744073709551615))"
  "rol (numeral k) 21 = of_nat (((numeral k * 2097152) AND 18446744073709551615)
      OR drop_bit 43 (numeral k AND 18446744073709551615))"
  "rol (numeral k) 25 = of_nat (((numeral k * 33554432) AND 18446744073709551615)
      OR drop_bit 39 (numeral k AND 18446744073709551615))"
  "rol (numeral k) 27 = of_nat (((numeral k * 134217728) AND 18446744073709551615)
      OR drop_bit 37 (numeral k AND 18446744073709551615))"
  "rol (numeral k) 28 = of_nat (((numeral k * 268435456) AND 18446744073709551615)
      OR drop_bit 36 (numeral k AND 18446744073709551615))"
  "rol (numeral k) 36 = of_nat (((numeral k * 68719476736) AND 18446744073709551615)
      OR drop_bit 28 (numeral k AND 18446744073709551615))"
  "rol (numeral k) 39 = of_nat (((numeral k * 549755813888) AND 18446744073709551615)
      OR drop_bit 25 (numeral k AND 18446744073709551615))"
  "rol (numeral k) 41 = of_nat (((numeral k * 2199023255552) AND 18446744073709551615)
      OR drop_bit 23 (numeral k AND 18446744073709551615))"
  "rol (numeral k) 43 = of_nat (((numeral k * 8796093022208) AND 18446744073709551615)
      OR drop_bit 21 (numeral k AND 18446744073709551615))"
  "rol (numeral k) 44 = of_nat (((numeral k * 17592186044416) AND 18446744073709551615)
      OR drop_bit 20 (numeral k AND 18446744073709551615))"
  "rol (numeral k) 45 = of_nat (((numeral k * 35184372088832) AND 18446744073709551615)
      OR drop_bit 19 (numeral k AND 18446744073709551615))"
  "rol (numeral k) 55 = of_nat (((numeral k * 36028797018963968) AND 18446744073709551615)
      OR drop_bit 9 (numeral k AND 18446744073709551615))"
  "rol (numeral k) 56 = of_nat (((numeral k * 72057594037927936) AND 18446744073709551615)
      OR drop_bit 8 (numeral k AND 18446744073709551615))"
  "rol (numeral k) 61 = of_nat (((numeral k * 2305843009213693952) AND 18446744073709551615)
      OR drop_bit 3 (numeral k AND 18446744073709551615))"
  "rol (numeral k) 62 = of_nat (((numeral k * 4611686018427387904) AND 18446744073709551615)
      OR drop_bit 2 (numeral k AND 18446744073709551615))"
  by (rule rol_numeral; simp)+

lemma rol_of_0: "rol 0 n = 0"
  by (simp add: rol_def)

lemma rol_by_0: "rol w 0 = w"
  by (simp add: rol_def)

text \<open>Exclusive or and and-not of two lanes, on the binary representation.\<close>

lemma lane_xor_num:
  "(numeral m :: lane) XOR numeral n = (case xor_num m n of None \<Rightarrow> 0 | Some k \<Rightarrow> numeral k)"
proof -
  have "(numeral m :: lane) XOR numeral n = of_nat (numeral m XOR numeral n)"
    by (simp only: of_nat_xor_eq of_nat_numeral)
  also have "\<dots> = of_nat (case xor_num m n of None \<Rightarrow> 0 | Some k \<Rightarrow> numeral k)"
    by (simp only: numeral_xor_num)
  finally show ?thesis by (cases "xor_num m n") simp_all
qed

lemma lane_not_and_num:
  "NOT (numeral m :: lane) AND numeral n
   = (case and_not_num n m of None \<Rightarrow> 0 | Some k \<Rightarrow> numeral k)"
proof -
  have "NOT (numeral m :: lane) AND numeral n = of_int (NOT (numeral m) AND numeral n)"
    by (simp only: of_int_and_eq of_int_not_eq of_int_numeral)
  also have "\<dots> = of_int (case and_not_num n m of None \<Rightarrow> 0 | Some k \<Rightarrow> numeral k)"
    by (simp only: int_numeral_not_and_num)
  finally show ?thesis by (cases "and_not_num n m") simp_all
qed

lemma lane_zero_rules:
  "0 XOR (x :: lane) = x" "(x :: lane) XOR 0 = x"
  "NOT (0 :: lane) AND x = x" "NOT (x :: lane) AND 0 = 0"
  by simp_all

lemma drop_bit_numeral_One: "drop_bit (numeral l) (numeral Num.One :: nat) = 0"
  by (simp add: numeral_eq_Suc drop_bit_Suc)

lemma nat_zero_rules:
  "(0 :: nat) OR y = y" "(y :: nat) OR 0 = y" "drop_bit n (0 :: nat) = 0"
  "drop_bit 0 (y :: nat) = y" "(0 :: nat) * y = 0" "(0 :: nat) AND y = 0"
  by simp_all

lemma lane_one: "(1 :: lane) = numeral Num.One"
  by simp

lemmas keccak_eval = keccak_f_def round_constants_def foldl_Cons foldl_Nil keccak_round_def
  theta_def column_parity_unrolled theta_effect_unrolled theta_apply_unrolled rho_pi_unrolled
  chi_unrolled iota_unrolled
  lane_one lane_zero_rules lane_xor_num xor_num.simps lane_not_and_num and_not_num.simps
  option.case option.map
  rol_eval rol_of_0 rol_by_0 numeral_times_numeral mult_num_simps
  numeral_and_num and_num.simps numeral_or_num or_num.simps
  drop_bit_numeral_bit0 drop_bit_numeral_bit1 pred_numeral_simps BitM.simps nat_zero_rules
  drop_bit_numeral_One of_nat_numeral of_nat_0

text \<open>The hash of the empty string, the known answer \<open>c5d24601 \<dots> 5d85a470\<close>.\<close>

lemma keccak_f_empty:
  "keccak_f
    [0x0000000000000001, 0x0000000000000000, 0x0000000000000000,
     0x0000000000000000, 0x0000000000000000, 0x0000000000000000,
     0x0000000000000000, 0x0000000000000000, 0x0000000000000000,
     0x0000000000000000, 0x0000000000000000, 0x0000000000000000,
     0x0000000000000000, 0x0000000000000000, 0x0000000000000000,
     0x0000000000000000, 0x8000000000000000, 0x0000000000000000,
     0x0000000000000000, 0x0000000000000000, 0x0000000000000000,
     0x0000000000000000, 0x0000000000000000, 0x0000000000000000,
     0x0000000000000000]
   = [0x3C23F7860146D2C5, 0xC003C7DCB27D7E92, 0x3B2782CA53B600E5,
     0x70A4855D04D8FA7B, 0x74A97CD82C9ABB3D, 0xCB9B1161ECB0A2B9,
     0x1F2211C4C0F9ED5C, 0x820DC6175FA24161, 0x81BABFBCAB8046D2,
     0xB1D551B7242B765B, 0x3CF26D5EBA2553E8, 0x3BCE6A98FE5B7210,
     0xBA7D9FA73545D2A2, 0xFA0D3CD3B03B15BB, 0x3BFED7EB12C7CE09,
     0xEB829C854E19A949, 0x1B5D1A6545A611FF, 0x064146F400E16B72,
     0xFE8734E16471AB9F, 0x9C3088BDEEBB0936, 0xDEE8B8ECA7B2ACBA,
     0x163B62B71DCF4521, 0x6B571B9910726D91, 0xB7FA22CF622318BE,
     0xA3FE1AF7779FAFD7]"
  by (simp only: keccak_eval)

lemma absorb_empty:
  "map2 (XOR) (replicate 25 0) (map lane_of_bytes (chunks 8 (pad [])) @ replicate 8 0)
   = [0x0000000000000001, 0x0000000000000000, 0x0000000000000000,
     0x0000000000000000, 0x0000000000000000, 0x0000000000000000,
     0x0000000000000000, 0x0000000000000000, 0x0000000000000000,
     0x0000000000000000, 0x0000000000000000, 0x0000000000000000,
     0x0000000000000000, 0x0000000000000000, 0x0000000000000000,
     0x0000000000000000, 0x8000000000000000, 0x0000000000000000,
     0x0000000000000000, 0x0000000000000000, 0x0000000000000000,
     0x0000000000000000, 0x0000000000000000, 0x0000000000000000,
     0x0000000000000000]"
  by code_simp

lemma keccak256_empty:
  "keccak256 []
   = [0xc5, 0xd2, 0x46, 0x01, 0x86, 0xf7, 0x23, 0x3c,
     0x92, 0x7e, 0x7d, 0xb2, 0xdc, 0xc7, 0x03, 0xc0,
     0xe5, 0x00, 0xb6, 0x53, 0xca, 0x82, 0x27, 0x3b,
     0x7b, 0xfa, 0xd8, 0x04, 0x5d, 0x85, 0xa4, 0x70]"
proof -
  have blocks: "chunks 136 (pad []) = [pad []]"
    by code_simp
  have squeeze: "concat (map bytes_of_lane (take 4
    [0x3C23F7860146D2C5, 0xC003C7DCB27D7E92, 0x3B2782CA53B600E5,
     0x70A4855D04D8FA7B, 0x74A97CD82C9ABB3D, 0xCB9B1161ECB0A2B9,
     0x1F2211C4C0F9ED5C, 0x820DC6175FA24161, 0x81BABFBCAB8046D2,
     0xB1D551B7242B765B, 0x3CF26D5EBA2553E8, 0x3BCE6A98FE5B7210,
     0xBA7D9FA73545D2A2, 0xFA0D3CD3B03B15BB, 0x3BFED7EB12C7CE09,
     0xEB829C854E19A949, 0x1B5D1A6545A611FF, 0x064146F400E16B72,
     0xFE8734E16471AB9F, 0x9C3088BDEEBB0936, 0xDEE8B8ECA7B2ACBA,
     0x163B62B71DCF4521, 0x6B571B9910726D91, 0xB7FA22CF622318BE,
     0xA3FE1AF7779FAFD7]))
   = [0xc5, 0xd2, 0x46, 0x01, 0x86, 0xf7, 0x23, 0x3c,
     0x92, 0x7e, 0x7d, 0xb2, 0xdc, 0xc7, 0x03, 0xc0,
     0xe5, 0x00, 0xb6, 0x53, 0xca, 0x82, 0x27, 0x3b,
     0x7b, 0xfa, 0xd8, 0x04, 0x5d, 0x85, 0xa4, 0x70]"
    by code_simp
  show ?thesis
    by (simp only: keccak256_def blocks foldl_Cons foldl_Nil absorb_def absorb_empty
        keccak_f_empty squeeze)
qed

text \<open>The hash of the signature of \<open>batchSend\<close> and its first four bytes.\<close>

lemma keccak_f_batchSend:
  "keccak_f
    [0x6E65536863746162, 0x7365726464612864, 0x7365726464612C73,
     0x746E69752C5D5B73, 0x0001295D5B363532, 0x0000000000000000,
     0x0000000000000000, 0x0000000000000000, 0x0000000000000000,
     0x0000000000000000, 0x0000000000000000, 0x0000000000000000,
     0x0000000000000000, 0x0000000000000000, 0x0000000000000000,
     0x0000000000000000, 0x8000000000000000, 0x0000000000000000,
     0x0000000000000000, 0x0000000000000000, 0x0000000000000000,
     0x0000000000000000, 0x0000000000000000, 0x0000000000000000,
     0x0000000000000000]
   = [0x586416FFED8B6419, 0x18F00C7077C2116B, 0x8E2434D17E361FD4,
     0x11DD7C7610356513, 0x6B8E28F17D7EE1F0, 0x61AB91F74E0C965C,
     0x8AA10E06FBB48C7B, 0x6865E1CDBD946C2B, 0xBDC5272C9B7E6B39,
     0xCCC83EA88A82713C, 0x20EF80B1197518FD, 0xA6D758FFE6687EFF,
     0xBE37CF9589AF8FA0, 0x609F092F533E0473, 0x1C418FD501A82D66,
     0x49F7BA61B7D1A456, 0x4935DD059E23A399, 0x6E69676780A8DAD1,
     0xE864EA69A2D04DC2, 0x35E01DE339A30FDF, 0xE2F7EBBAF2614E53,
     0xBA9E94692E1B09EB, 0xA4534557D34B70EE, 0xEE6EB8F978E6FF49,
     0x7684A0ECC75F2518]"
  by (simp only: keccak_eval)

lemma absorb_batchSend:
  "map2 (XOR) (replicate 25 0)
     (map lane_of_bytes (chunks 8 (pad (map of_char batchSend_signature))) @ replicate 8 0)
   = [0x6E65536863746162, 0x7365726464612864, 0x7365726464612C73,
     0x746E69752C5D5B73, 0x0001295D5B363532, 0x0000000000000000,
     0x0000000000000000, 0x0000000000000000, 0x0000000000000000,
     0x0000000000000000, 0x0000000000000000, 0x0000000000000000,
     0x0000000000000000, 0x0000000000000000, 0x0000000000000000,
     0x0000000000000000, 0x8000000000000000, 0x0000000000000000,
     0x0000000000000000, 0x0000000000000000, 0x0000000000000000,
     0x0000000000000000, 0x0000000000000000, 0x0000000000000000,
     0x0000000000000000]"
  unfolding batchSend_signature_def by code_simp

lemma keccak256_batchSend:
  "keccak256 (map of_char batchSend_signature)
   = [0x19, 0x64, 0x8b, 0xed, 0xff, 0x16, 0x64, 0x58,
     0x6b, 0x11, 0xc2, 0x77, 0x70, 0x0c, 0xf0, 0x18,
     0xd4, 0x1f, 0x36, 0x7e, 0xd1, 0x34, 0x24, 0x8e,
     0x13, 0x65, 0x35, 0x10, 0x76, 0x7c, 0xdd, 0x11]"
proof -
  have blocks: "chunks 136 (pad (map of_char batchSend_signature))
                = [pad (map of_char batchSend_signature)]"
    unfolding batchSend_signature_def by code_simp
  have squeeze: "concat (map bytes_of_lane (take 4
    [0x586416FFED8B6419, 0x18F00C7077C2116B, 0x8E2434D17E361FD4,
     0x11DD7C7610356513, 0x6B8E28F17D7EE1F0, 0x61AB91F74E0C965C,
     0x8AA10E06FBB48C7B, 0x6865E1CDBD946C2B, 0xBDC5272C9B7E6B39,
     0xCCC83EA88A82713C, 0x20EF80B1197518FD, 0xA6D758FFE6687EFF,
     0xBE37CF9589AF8FA0, 0x609F092F533E0473, 0x1C418FD501A82D66,
     0x49F7BA61B7D1A456, 0x4935DD059E23A399, 0x6E69676780A8DAD1,
     0xE864EA69A2D04DC2, 0x35E01DE339A30FDF, 0xE2F7EBBAF2614E53,
     0xBA9E94692E1B09EB, 0xA4534557D34B70EE, 0xEE6EB8F978E6FF49,
     0x7684A0ECC75F2518]))
   = [0x19, 0x64, 0x8b, 0xed, 0xff, 0x16, 0x64, 0x58,
     0x6b, 0x11, 0xc2, 0x77, 0x70, 0x0c, 0xf0, 0x18,
     0xd4, 0x1f, 0x36, 0x7e, 0xd1, 0x34, 0x24, 0x8e,
     0x13, 0x65, 0x35, 0x10, 0x76, 0x7c, 0xdd, 0x11]"
    by code_simp
  show ?thesis
    by (simp only: keccak256_def blocks foldl_Cons foldl_Nil absorb_def absorb_batchSend
        keccak_f_batchSend squeeze)
qed

lemma selector_batchSend:
  "function_selector batchSend_signature = [0x19, 0x64, 0x8b, 0xed]"
  by (simp add: function_selector_def keccak256_batchSend)

subsection \<open>Instruction encoder\<close>

text \<open>
  C7 (as amended): the call data is a function of the three arguments alone, so equal
  arguments give byte-identical output, and whenever \<open>getBatchTransferCalldata\<close> produces
  output its first four bytes are \<open>0x19648bed\<close>, the first four bytes of the keccak256
  hash of \<open>batchSend(address,address[],uint256[])\<close>.
\<close>

theorem calldata_selector:
  assumes "getBatchTransferCalldata encodeFunctionData_batchSend token recipients amounts
           = Inr calldata"
  shows "take 4 calldata = [0x19, 0x64, 0x8b, 0xed]
       \<and> (token' = token \<and> recipients' = recipients \<and> amounts' = amounts \<longrightarrow>
            getBatchTransferCalldata encodeFunctionData_batchSend token' recipients' amounts'
            = Inr calldata)"
proof -
  from assms obtain rest where "calldata = function_selector batchSend_signature @ rest"
    by (auto simp: getBatchTransferCalldata_def encodeFunctionData_batchSend_def
        split: if_splits)
  then have "take 4 calldata = [0x19, 0x64, 0x8b, 0xed]"
    by (simp add: selector_batchSend)
  then show ?thesis using assms by simp
qed

theorem calldata_selector_witness:
  "take 4 (projr (getBatchTransferCalldata encodeFunctionData_batchSend usdc [bob, carol]
                    [1000000, 2000000]))
   = [0x19, 0x64, 0x8b, 0xed]"
proof -
  have "\<not> isl (getBatchTransferCalldata encodeFunctionData_batchSend usdc [bob, carol]
                  [1000000, 2000000])"
    by (simp add: getBatchTransferCalldata_def encodeFunctionData_batchSend_def)
  then have "getBatchTransferCalldata encodeFunctionData_batchSend usdc [bob, carol]
               [1000000, 2000000]
             = Inr (projr (getBatchTransferCalldata encodeFunctionData_batchSend usdc [bob, carol]
                             [1000000, 2000000]))"
    by (cases "getBatchTransferCalldata encodeFunctionData_batchSend usdc [bob, carol]
                 [1000000, 2000000]") simp_all
  from calldata_selector [OF this] show ?thesis by simp
qed

text \<open>
  C7 as stated fails: the call data for a two-recipient batch does not start with
  \<open>0x3a7fec06\<close>.
\<close>

theorem calldata_selector_counterexample:
  "\<not> isl (getBatchTransferCalldata encodeFunctionData_batchSend usdc [bob, carol]
             [1000000, 2000000])
   \<and> take 4 (projr (getBatchTransferCalldata encodeFunctionData_batchSend usdc [bob, carol]
                      [1000000, 2000000]))
     \<noteq> [0x3a, 0x7f, 0xec, 0x06]"
  by (simp add: getBatchTransferCalldata_def encodeFunctionData_batchSend_def
      selector_batchSend)

subsection \<open>Dispatch adapter\<close>

text \<open>
  C5, the code at the failing input: given a client object with none of the three
  submission methods, \<open>executeBatchTransfer\<close> for one well-formed recipient returns
  \<open>success = true\<close> with a made-up transaction hash, not an error.
\<close>

theorem executeBatchTransfer_mock_success:
  "executeBatchTransfer example_host no_capability [example_recipient] [100]
   = \<lparr>batchId = ''batch_1700000000000'',
      txHash = ''0x8f3a'',
      totalAmount = ''100000000'',
      recipientCount = 1,
      success = True,
      error = Some ''SDK method not found - mock transaction''\<rparr>"
  by (simp add: executeBatchTransfer_def executeBatchTransfer_try_def example_host_def
      no_capability_def example_recipient_def isBatchContractDeployed_def
      getBatchContractAddress_def BATCH_CONTRACT_ADDRESSES_def zero_address_string_def
      validateBatchTransfer_def validate_from.simps recipient_rejected_def amount_rejected_def
      calculateTotalAmount_def getBatchTransferCalldata_def show_int_def show_nat.simps
      digit_char_def Let_def)

end
